theory Spec2Isabelle
  imports Main "HOL-Library.AList"
begin

section \<open>Numbers and strings of the host language\<close>

text \<open>
  The program is TypeScript. A string is a list of code units; the characters that occur in
  signatures, header names and base64 text are below U+0100, so \<^typ>\<open>string\<close> holds them.

  A number is an IEEE double. Every number that \<open>normalizeSignatureV\<close> computes, for an
  integer chain id, is an integer-valued double, an infinity or NaN: \<open>Fin i\<close> is the double
  whose value is the integer \<open>i\<close>. The result of \<open>+\<close>, \<open>-\<close>, \<open>*\<close> and of \<open>parseInt\<close> is the
  exact result rounded to the nearest double, ties to the even significand, and an infinity
  from \<open>2^1024\<close> on; \<open>%\<close> is exact. Negative zero behaves as zero everywhere it can occur
  here (\<open>-0 === 0\<close>, \<open>-0 + 27\<close> is \<open>27\<close>, it prints as \<open>0\<close>), so it is not kept apart.
\<close>

datatype number = NaN | PosInf | NegInf | Fin int

fun bitLength :: "nat \<Rightarrow> nat" where
  "bitLength n = (if n = 0 then 0 else Suc (bitLength (n div 2)))"

declare bitLength.simps [simp del]

definition roundMagnitude :: "nat \<Rightarrow> nat" where
  \<comment> \<open>rounding to 53 significant bits: \<open>m = q * 2^e + r\<close> with \<open>q\<close> of 53 bits\<close>
  "roundMagnitude m =
     (let k = bitLength m
      in if k \<le> 53 then m
         else (let e = k - 53; q = m div 2 ^ e; r = m mod 2 ^ e; h = 2 ^ (e - 1)
               in (if h < r \<or> (r = h \<and> odd q) then q + 1 else q) * 2 ^ e))"

definition toDouble :: "int \<Rightarrow> number" where
  \<comment> \<open>the double nearest to an integer\<close>
  "toDouble i =
     (let m = roundMagnitude (nat \<bar>i\<bar>)
      in if 2 ^ 1024 \<le> m then (if i < 0 then NegInf else PosInf)
         else Fin (sgn i * int m))"

fun negN :: "number \<Rightarrow> number" where
  "negN NaN = NaN"
| "negN PosInf = NegInf"
| "negN NegInf = PosInf"
| "negN (Fin x) = Fin (- x)"

fun addN :: "number \<Rightarrow> number \<Rightarrow> number" where
  "addN (Fin x) (Fin y) = toDouble (x + y)"
| "addN NaN b = NaN"
| "addN a NaN = NaN"
| "addN PosInf NegInf = NaN"
| "addN NegInf PosInf = NaN"
| "addN PosInf b = PosInf"
| "addN a PosInf = PosInf"
| "addN NegInf b = NegInf"
| "addN a NegInf = NegInf"

definition subN :: "number \<Rightarrow> number \<Rightarrow> number" where
  "subN a b = addN a (negN b)"

fun signOf :: "number \<Rightarrow> int" where
  "signOf (Fin x) = sgn x"
| "signOf PosInf = 1"
| "signOf NegInf = - 1"
| "signOf NaN = 0"

fun mulN :: "number \<Rightarrow> number \<Rightarrow> number" where
  "mulN (Fin x) (Fin y) = toDouble (x * y)"
| "mulN NaN b = NaN"
| "mulN a NaN = NaN"
| "mulN a b =
     (if signOf a * signOf b = 0 then NaN
      else if signOf a * signOf b < 0 then NegInf else PosInf)"

fun remN :: "number \<Rightarrow> number \<Rightarrow> number" where
  \<comment> \<open>the operator \<open>%\<close>: the remainder takes the sign of the dividend\<close>
  "remN (Fin x) (Fin y) = (if y = 0 then NaN else Fin (sgn x * (\<bar>x\<bar> mod \<bar>y\<bar>)))"
| "remN (Fin x) PosInf = Fin x"
| "remN (Fin x) NegInf = Fin x"
| "remN a b = NaN"

fun eqN :: "number \<Rightarrow> number \<Rightarrow> bool" where
  \<comment> \<open>the operator \<open>===\<close> on numbers\<close>
  "eqN (Fin x) (Fin y) = (x = y)"
| "eqN PosInf PosInf = True"
| "eqN NegInf NegInf = True"
| "eqN a b = False"

fun geN :: "number \<Rightarrow> number \<Rightarrow> bool" where
  \<comment> \<open>the operator \<open>>=\<close>\<close>
  "geN (Fin x) (Fin y) = (y \<le> x)"
| "geN NaN b = False"
| "geN a NaN = False"
| "geN PosInf b = True"
| "geN a NegInf = True"
| "geN a b = False"

definition isWhiteSpace :: "char \<Rightarrow> bool" where
  \<comment> \<open>the white space and line terminators below U+0100 that \<open>parseInt\<close> skips\<close>
  "isWhiteSpace c = (of_char c \<in> {9, 10, 11, 12, 13, 32, 160 :: nat})"

definition hexDigitValue :: "char \<Rightarrow> nat option" where
  "hexDigitValue c =
     (let n = of_char c :: nat in
      if 48 \<le> n \<and> n \<le> 57 then Some (n - 48)
      else if 97 \<le> n \<and> n \<le> 102 then Some (n - 87)
      else if 65 \<le> n \<and> n \<le> 70 then Some (n - 55)
      else None)"

definition isHexDigit :: "char \<Rightarrow> bool" where
  "isHexDigit c = (hexDigitValue c \<noteq> None)"

definition hexValue :: "string \<Rightarrow> nat" where
  "hexValue z = foldl (\<lambda>a c. 16 * a + the (hexDigitValue c)) 0 z"

definition stripSign :: "string \<Rightarrow> int \<times> string" where
  "stripSign s =
     (case s of
        c # r \<Rightarrow> if c = CHR ''-'' then (-1, r) else if c = CHR ''+'' then (1, r) else (1, s)
      | [] \<Rightarrow> (1, s))"

definition stripPrefix :: "string \<Rightarrow> string" where
  "stripPrefix s =
     (case s of
        a # b # r \<Rightarrow> if a = CHR ''0'' \<and> (b = CHR ''x'' \<or> b = CHR ''X'') then r else s
      | _ \<Rightarrow> s)"

definition parseInt16 :: "string \<Rightarrow> number" where
  \<comment> \<open>\<open>parseInt(s, 16)\<close>: leading white space, one sign, one \<open>0x\<close>, then the longest run of
      hex digits; NaN when that run is empty, else the double nearest to its value\<close>
  "parseInt16 s =
     (let (sign, s1) = stripSign (dropWhile isWhiteSpace s);
          z = takeWhile isHexDigit (stripPrefix s1)
      in if z = [] then NaN else toDouble (sign * int (hexValue z)))"

definition hexChar :: "nat \<Rightarrow> char" where
  \<comment> \<open>the digit of \<open>toString(16)\<close> for a value below 16, as every call below passes\<close>
  "hexChar d = ''0123456789abcdef'' ! d"

fun hexDigits :: "nat \<Rightarrow> string" where
  "hexDigits n = (if n < 16 then [hexChar n] else hexDigits (n div 16) @ [hexChar (n mod 16)])"

declare hexDigits.simps [simp del]

definition toString16 :: "number \<Rightarrow> string" where
  \<comment> \<open>\<open>n.toString(16)\<close> on an integer-valued double, an infinity or NaN\<close>
  "toString16 n =
     (case n of
        NaN \<Rightarrow> ''NaN''
      | PosInf \<Rightarrow> ''Infinity''
      | NegInf \<Rightarrow> ''-Infinity''
      | Fin i \<Rightarrow> if i < 0 then CHR ''-'' # hexDigits (nat (- i)) else hexDigits (nat i))"

definition padStart2 :: "string \<Rightarrow> string" where
  \<comment> \<open>\<open>s.padStart(2, '0')\<close>\<close>
  "padStart2 s = replicate (2 - length s) (CHR ''0'') @ s"

definition isLowerHexDigit :: "char \<Rightarrow> bool" where
  "isLowerHexDigit c = (c \<in> set ''0123456789abcdef'')"

section \<open>normalizeSignatureV (src/lib/payment.ts, lines 11 to 45)\<close>

text \<open>
  The chain id is an integer; an integer that is not itself a double stands for the double
  nearest to it, as a literal does.
\<close>

definition normalizedV :: "number \<Rightarrow> int \<Rightarrow> number" where
  \<comment> \<open>lines 20 to 36\<close>
  "normalizedV vValue chainId =
     (if eqN vValue (Fin 0) \<or> eqN vValue (Fin 1) then addN vValue (Fin 27)
      else if eqN vValue (Fin 27) \<or> eqN vValue (Fin 28) then vValue
      else if geN vValue (Fin 35) then
        (let yParity = remN (subN (subN vValue (Fin 35)) (mulN (toDouble chainId) (Fin 2)))
                         (Fin 2)
         in addN yParity (Fin 27))
      else vValue)"

definition normalizeSignatureV :: "string \<Rightarrow> int \<Rightarrow> string" where
  "normalizeSignatureV signature chainId =
     (let vHex = drop 130 signature;
          vValue = parseInt16 vHex
      in take 130 signature @ padStart2 (toString16 (normalizedV vValue chainId)))"


section \<open>Values of the host: errors, JSON documents, built-in functions\<close>

datatype error = InvalidCharacterError | SyntaxError | TypeError

text \<open>
  What \<open>JSON.parse\<close> returns: a tree without sharing. The number type is left open; an
  object is the list of its own properties in their order.
\<close>

datatype 'n jsval =
    JNull
  | JBool bool
  | JNumber 'n
  | JString string
  | JArray "'n jsval list"
  | JObject "(string \<times> 'n jsval) list"

text \<open>
  The built-ins that \<open>createNormalizedFetch\<close> calls are not code of the repository. They are
  parameters of the model: \<open>atob\<close> and \<open>btoa\<close> (which throw \<open>InvalidCharacterError\<close>),
  \<open>JSON.parse\<close> (which throws \<open>SyntaxError\<close>), \<open>JSON.stringify\<close> on a parsed document, the
  conversion of a value to a string, which the code reaches when \<open>payload.signature\<close> is
  an array, and \<open>JSON.stringify\<close> on the options of a call (type \<open>'o\<close>), which line 54
  evaluates for the console: it throws \<open>TypeError\<close> on a circular structure, and its text
  is only printed.
\<close>

record ('n, 'o) runtime =
  atob :: "string \<Rightarrow> error + string"
  btoa :: "string \<Rightarrow> error + string"
  JSON_parse :: "string \<Rightarrow> error + 'n jsval"
  JSON_stringify :: "'n jsval \<Rightarrow> string"
  ToString :: "'n jsval \<Rightarrow> error + string"
  stringifyOptions :: "'o \<Rightarrow> error + unit"

definition bindE :: "error + 'a \<Rightarrow> ('a \<Rightarrow> error + 'b) \<Rightarrow> error + 'b" where
  \<comment> \<open>sequencing inside the \<open>try\<close> block: the first throw ends it\<close>
  "bindE m f = (case m of Inl e \<Rightarrow> Inl e | Inr x \<Rightarrow> f x)"

definition truthy :: "string option \<Rightarrow> bool" where
  \<comment> \<open>truthiness of a value that is a string, \<open>null\<close> or \<open>undefined\<close> (\<open>None\<close>)\<close>
  "truthy a = (case a of None \<Rightarrow> False | Some s \<Rightarrow> s \<noteq> [])"

definition orElse :: "string option \<Rightarrow> string option \<Rightarrow> string option" where
  \<comment> \<open>the operator \<open>||\<close>\<close>
  "orElse a b = (if truthy a then a else b)"

fun ToBoolean :: "('n::zero) jsval option \<Rightarrow> bool" where
  "ToBoolean None = False"
| "ToBoolean (Some JNull) = False"
| "ToBoolean (Some (JBool b)) = b"
| "ToBoolean (Some (JNumber n)) = (n \<noteq> 0)"
| "ToBoolean (Some (JString s)) = (s \<noteq> [])"
| "ToBoolean (Some (JArray xs)) = True"
| "ToBoolean (Some (JObject kv)) = True"

definition getProperty :: "'n jsval \<Rightarrow> string \<Rightarrow> error + 'n jsval option" where
  \<comment> \<open>\<open>v[k]\<close> for a name \<open>k\<close> that no built-in prototype defines (\<open>payload\<close>, \<open>signature\<close>):
      reading a property of \<open>null\<close> throws, an object gives its own property, every other
      value gives \<open>undefined\<close>\<close>
  "getProperty v k =
     (case v of
        JNull \<Rightarrow> Inl TypeError
      | JObject kv \<Rightarrow> Inr (map_of kv k)
      | _ \<Rightarrow> Inr None)"

section \<open>Request headers\<close>

text \<open>
  The three shapes of \<open>HeadersInit\<close>, and \<open>NoHeaders\<close> for a field that is \<open>undefined\<close>,
  \<open>null\<close> or any other value that is not an object. A \<open>Headers\<close> instance is its header
  list; a plain object is the list of its own properties; an array of pairs is an object
  too, without a property of any of the four names. The instance is taken to be mutable
  (guard \<open>none\<close>) and the plain object to be extensible with configurable properties, as
  objects made by a literal are.
\<close>

datatype headersInit =
    NoHeaders
  | HeadersObject "(string \<times> string) list"
  | PlainObject "(string \<times> string) list"
  | PairArray "(string \<times> string) list"

text \<open>
  The other own properties of the options: a value that \<open>JSON.stringify\<close> writes, or the
  options object itself, which makes the structure circular.
\<close>

datatype property = Data string | TheOptions

record requestInit =
  headers :: headersInit
  others :: "(string \<times> property) list"

definition initHeaders :: "'z requestInit_scheme option \<Rightarrow> headersInit" where
  \<comment> \<open>\<open>init?.headers\<close>\<close>
  "initHeaders init = (case init of None \<Rightarrow> NoHeaders | Some r \<Rightarrow> headers r)"

definition lowerChar :: "char \<Rightarrow> char" where
  "lowerChar c =
     (let n = of_char c :: nat in if 65 \<le> n \<and> n \<le> 90 then char_of (n + 32) else c)"

definition sameName :: "string \<Rightarrow> string \<Rightarrow> bool" where
  \<comment> \<open>header names are compared byte-case-insensitively\<close>
  "sameName a b = (map lowerChar a = map lowerChar b)"

fun joinValues :: "string list \<Rightarrow> string" where
  "joinValues [] = []"
| "joinValues [v] = v"
| "joinValues (v # w # vs) = v @ '', '' @ joinValues (w # vs)"

definition headersGet :: "(string \<times> string) list \<Rightarrow> string \<Rightarrow> string option" where
  \<comment> \<open>\<open>Headers.get\<close>: \<open>null\<close> when no header has the name, else the values joined\<close>
  "headersGet hl name =
     (let vs = map snd (filter (\<lambda>h. sameName (fst h) name) hl)
      in if vs = [] then None else Some (joinValues vs))"

definition isHttpWhitespace :: "char \<Rightarrow> bool" where
  "isHttpWhitespace c = (of_char c \<in> {9, 10, 13, 32 :: nat})"

definition normalizeValue :: "string \<Rightarrow> string" where
  "normalizeValue v = rev (dropWhile isHttpWhitespace (rev (dropWhile isHttpWhitespace v)))"

definition validValue :: "string \<Rightarrow> bool" where
  "validValue v = (\<forall>c \<in> set v. of_char c \<notin> {0, 10, 13 :: nat})"

fun setHeader :: "(string \<times> string) list \<Rightarrow> string \<Rightarrow> string \<Rightarrow> (string \<times> string) list" where
  "setHeader [] name v = [(name, v)]"
| "setHeader (h # hl) name v =
     (if sameName (fst h) name
      then (fst h, v) # filter (\<lambda>h'. \<not> sameName (fst h') name) hl
      else h # setHeader hl name v)"

definition headersSet :: "(string \<times> string) list \<Rightarrow> string \<Rightarrow> string \<Rightarrow> error + (string \<times> string) list" where
  \<comment> \<open>\<open>Headers.set\<close> for a name that is a valid token: the value is stripped of leading and
      trailing white space and checked; the first header of that name takes the value and
      the others go, or a new header is appended\<close>
  "headersSet hl name v =
     (let w = normalizeValue v
      in if validValue w then Inr (setHeader hl name w) else Inl TypeError)"

section \<open>createNormalizedFetch (src/lib/payment.ts, lines 50 to 111)\<close>

text \<open>
  The wrapper is a function of the built-ins, the chain id, the wrapped \<open>fetch\<close>, and the
  two arguments of a call. Of the console output only line 54 can throw: it serializes the
  options, outside the \<open>try\<close> block that opens on line 75, so its error leaves the wrapper
  and \<open>fetch\<close> is not called. The headers are changed in place by the code; the model
  passes the changed headers to \<open>fetch\<close>, which is the object the caller still holds.
\<close>

definition findPaymentHeader :: "headersInit \<Rightarrow> string option" where
  \<comment> \<open>lines 59 to 70\<close>
  "findPaymentHeader h =
     (case h of
        HeadersObject hl \<Rightarrow>
          orElse (orElse (orElse (headersGet hl ''x-payment'') (headersGet hl ''X-PAYMENT''))
                         (headersGet hl ''payment-signature''))
                 (headersGet hl ''PAYMENT-SIGNATURE'')
      | PlainObject kv \<Rightarrow>
          orElse (orElse (orElse (map_of kv ''x-payment'') (map_of kv ''X-PAYMENT''))
                         (map_of kv ''payment-signature''))
                 (map_of kv ''PAYMENT-SIGNATURE'')
      | PairArray ps \<Rightarrow> None
      | NoHeaders \<Rightarrow> None)"

definition payloadSignature :: "'n jsval \<Rightarrow> error + 'n jsval option" where
  \<comment> \<open>\<open>decoded.payload?.signature\<close>\<close>
  "payloadSignature decoded =
     bindE (getProperty decoded ''payload'')
       (\<lambda>p. case p of
              None \<Rightarrow> Inr None
            | Some JNull \<Rightarrow> Inr None
            | Some payload \<Rightarrow> getProperty payload ''signature'')"

definition callNormalizeSignatureV :: "('n, 'o) runtime \<Rightarrow> 'n jsval \<Rightarrow> int \<Rightarrow> error + string" where
  \<comment> \<open>the call of line 82, whose argument is whatever the document holds: a string is
      normalized; an array has a \<open>slice\<close> too, and is turned into a string by \<open>parseInt\<close> and
      by \<open>+\<close>; any other truthy value has no method \<open>slice\<close>\<close>
  "callNormalizeSignatureV rt signature chainId =
     (case signature of
        JString s \<Rightarrow> Inr (normalizeSignatureV s chainId)
      | JArray xs \<Rightarrow>
          bindE (ToString rt (JArray (drop 130 xs)))
            (\<lambda>vHex. bindE (ToString rt (JArray (take 130 xs)))
               (\<lambda>pre. Inr (pre @ padStart2 (toString16 (normalizedV (parseInt16 vHex) chainId)))))
      | _ \<Rightarrow> Inl TypeError)"

definition setPayloadSignature :: "'n jsval \<Rightarrow> string \<Rightarrow> error + 'n jsval" where
  \<comment> \<open>\<open>decoded.payload.signature = normalizedSig\<close> (line 85); at that line both are objects\<close>
  "setPayloadSignature decoded normalizedSig =
     (case decoded of
        JObject ds \<Rightarrow>
          (case map_of ds ''payload'' of
             Some (JObject ps) \<Rightarrow>
               Inr (JObject (AList.update ''payload''
                      (JObject (AList.update ''signature'' (JString normalizedSig) ps)) ds))
           | _ \<Rightarrow> Inl TypeError)
      | _ \<Rightarrow> Inl TypeError)"

definition normalizePayment ::
  "('n::zero, 'o) runtime \<Rightarrow> int \<Rightarrow> string \<Rightarrow> error + string option" where
  \<comment> \<open>lines 77 to 88: \<open>None\<close> when the document has no truthy \<open>payload.signature\<close>, else the
      new header value\<close>
  "normalizePayment rt chainId paymentHeader =
     bindE (atob rt paymentHeader) (\<lambda>bin.
     bindE (JSON_parse rt bin) (\<lambda>decoded.
     bindE (payloadSignature decoded) (\<lambda>sig.
       case sig of
         None \<Rightarrow> Inr None
       | Some originalSig \<Rightarrow>
           if ToBoolean sig then
             bindE (callNormalizeSignatureV rt originalSig chainId) (\<lambda>normalizedSig.
             bindE (setPayloadSignature decoded normalizedSig) (\<lambda>decoded'.
             bindE (btoa rt (JSON_stringify rt decoded')) (\<lambda>normalizedPaymentHeader.
               Inr (Some normalizedPaymentHeader))))
           else Inr None)))"

definition updateHeaders :: "headersInit \<Rightarrow> string \<Rightarrow> error + headersInit" where
  \<comment> \<open>lines 91 to 99; the search finds nothing in the other two shapes, so the last case
      is not reached\<close>
  "updateHeaders h normalizedPaymentHeader =
     (case h of
        HeadersObject hl \<Rightarrow>
          bindE (headersSet hl ''X-PAYMENT'' normalizedPaymentHeader)
            (\<lambda>hl'. Inr (HeadersObject hl'))
      | PlainObject kv \<Rightarrow>
          Inr (PlainObject
            (AList.update ''X-PAYMENT'' normalizedPaymentHeader
               (AList.delete ''X-PAYMENT'' (AList.delete ''x-payment'' kv))))
      | _ \<Rightarrow> Inr h)"

definition tryNormalize ::
  "('n::zero, 'o) runtime \<Rightarrow> int \<Rightarrow> headersInit \<Rightarrow> string \<Rightarrow> error + headersInit" where
  \<comment> \<open>the body of the \<open>try\<close> block, lines 75 to 100\<close>
  "tryNormalize rt chainId h paymentHeader =
     bindE (normalizePayment rt chainId paymentHeader)
       (\<lambda>r. case r of None \<Rightarrow> Inr h | Some v \<Rightarrow> updateHeaders h v)"

definition withHeaders :: "'z requestInit_scheme option \<Rightarrow> headersInit \<Rightarrow> 'z requestInit_scheme option" where
  "withHeaders init h = map_option (\<lambda>r. r\<lparr>headers := h\<rparr>) init"

definition createNormalizedFetch ::
  "('n::zero, 'z requestInit_scheme option) runtime \<Rightarrow> int
     \<Rightarrow> ('i \<Rightarrow> 'z requestInit_scheme option \<Rightarrow> 'r)
     \<Rightarrow> 'i \<Rightarrow> 'z requestInit_scheme option \<Rightarrow> error + 'r" where
  \<comment> \<open>\<open>Inl\<close>: the wrapper throws (its promise rejects) before \<open>fetch\<close> is called; \<open>Inr\<close>:
      what the call of \<open>fetch\<close> on line 107 returns\<close>
  "createNormalizedFetch rt chainId fetch input init =
     (case stringifyOptions rt init of
        Inl e \<Rightarrow> Inl e
      | Inr logged \<Rightarrow>
          Inr (let paymentHeader = findPaymentHeader (initHeaders init)
               in case paymentHeader of
                    None \<Rightarrow> fetch input init
                  | Some p \<Rightarrow>
                      if truthy paymentHeader then
                        (case tryNormalize rt chainId (initHeaders init) p of
                           Inl e \<Rightarrow> fetch input init
                         | Inr h \<Rightarrow> fetch input (withHeaders init h))
                      else fetch input init))"

section \<open>A reference host for the examples\<close>

text \<open>
  The examples below run on concrete built-ins: base64 as the forgiving decoder and the
  encoder of the web platform define it, and a reader and writer of JSON text for documents
  whose numbers are integer literals and whose characters are below U+0100 (a number with a
  fraction or an exponent, and an escape above U+00FF, are outside this reader). No
  statement about every host depends on them.
\<close>

definition b64value :: "char \<Rightarrow> nat option" where
  "b64value c =
     (let n = of_char c :: nat in
      if 65 \<le> n \<and> n \<le> 90 then Some (n - 65)
      else if 97 \<le> n \<and> n \<le> 122 then Some (n - 71)
      else if 48 \<le> n \<and> n \<le> 57 then Some (n + 4)
      else if n = 43 then Some 62
      else if n = 47 then Some 63
      else None)"

fun b64decode :: "nat list \<Rightarrow> nat list" where
  "b64decode (a # b # c # d # r) =
     (let n = ((a * 64 + b) * 64 + c) * 64 + d
      in (n div 65536) # (n div 256 mod 256) # (n mod 256) # b64decode r)"
| "b64decode [a, b, c] = (let n = (a * 64 + b) * 64 + c in [n div 1024, n div 4 mod 256])"
| "b64decode [a, b] = [(a * 64 + b) div 16]"
| "b64decode _ = []"

definition isAsciiWhitespace :: "char \<Rightarrow> bool" where
  "isAsciiWhitespace c = (of_char c \<in> {9, 10, 12, 13, 32 :: nat})"

definition stripPadding :: "string \<Rightarrow> string" where
  "stripPadding d =
     (if length d mod 4 = 0 \<and> d \<noteq> [] \<and> last d = CHR ''=''
      then (if butlast d \<noteq> [] \<and> last (butlast d) = CHR ''=''
            then butlast (butlast d) else butlast d)
      else d)"

definition host_atob :: "string \<Rightarrow> error + string" where
  "host_atob s =
     (let d = stripPadding (filter (\<lambda>c. \<not> isAsciiWhitespace c) s)
      in if length d mod 4 = 1 \<or> (\<exists>c \<in> set d. b64value c = None)
         then Inl InvalidCharacterError
         else Inr (map char_of (b64decode (map (\<lambda>c. the (b64value c)) d))))"

definition b64char :: "nat \<Rightarrow> char" where
  "b64char n = ''ABCDEFGHIJKLMNOPQRSTUVWXYZabcdefghijklmnopqrstuvwxyz0123456789+/'' ! n"

fun b64encode :: "nat list \<Rightarrow> string" where
  "b64encode (a # b # c # r) =
     (let n = (a * 256 + b) * 256 + c
      in b64char (n div 262144) # b64char (n div 4096 mod 64) # b64char (n div 64 mod 64)
           # b64char (n mod 64) # b64encode r)"
| "b64encode [a, b] =
     (let n = (a * 256 + b) * 4
      in [b64char (n div 4096), b64char (n div 64 mod 64), b64char (n mod 64), CHR ''=''])"
| "b64encode [a] =
     (let n = a * 16 in [b64char (n div 64), b64char (n mod 64), CHR ''='', CHR ''=''])"
| "b64encode [] = []"

definition host_btoa :: "string \<Rightarrow> error + string" where
  \<comment> \<open>every character of a \<^typ>\<open>string\<close> is below U+0100, so the encoder never throws here\<close>
  "host_btoa s = Inr (b64encode (map of_char s))"

definition isJsonSpace :: "char \<Rightarrow> bool" where
  "isJsonSpace c = (of_char c \<in> {9, 10, 13, 32 :: nat})"

definition isDigit :: "char \<Rightarrow> bool" where
  "isDigit c = (48 \<le> (of_char c :: nat) \<and> (of_char c :: nat) \<le> 57)"

definition decValue :: "string \<Rightarrow> nat" where
  "decValue z = foldl (\<lambda>a c. 10 * a + (of_char c - 48)) 0 z"

definition unescape :: "char \<Rightarrow> char option" where
  "unescape e =
     (if e = CHR 0x22 \<or> e = CHR 0x5C \<or> e = CHR ''/'' then Some e
      else if e = CHR ''b'' then Some (CHR 0x08)
      else if e = CHR ''f'' then Some (CHR 0x0C)
      else if e = CHR ''n'' then Some (CHR 0x0A)
      else if e = CHR ''r'' then Some (CHR 0x0D)
      else if e = CHR ''t'' then Some (CHR 0x09)
      else None)"

fun jsonString :: "string \<Rightarrow> (string \<times> string) option" where
  "jsonString [] = None"
| "jsonString (c # r) =
     (if c = CHR 0x22 then Some ([], r)
      else if c = CHR 0x5C then
        (case r of
           [] \<Rightarrow> None
         | e # r' \<Rightarrow>
             if e = CHR ''u'' then
               (if length r' \<ge> 4 \<and> (\<forall>h \<in> set (take 4 r'). isHexDigit h)
                   \<and> hexValue (take 4 r') < 256
                then map_option (\<lambda>(s, t). (char_of (hexValue (take 4 r')) # s, t))
                       (jsonString (drop 4 r'))
                else None)
             else (case unescape e of
                     None \<Rightarrow> None
                   | Some x \<Rightarrow> map_option (\<lambda>(s, t). (x # s, t)) (jsonString r')))
      else if (of_char c :: nat) < 32 then None
      else map_option (\<lambda>(s, t). (c # s, t)) (jsonString r))"

definition jsonNumber :: "string \<Rightarrow> (int \<times> string) option" where
  "jsonNumber s =
     (let neg = (s \<noteq> [] \<and> hd s = CHR ''-'');
          s1 = (if neg then tl s else s);
          z = takeWhile isDigit s1;
          r = dropWhile isDigit s1
      in if z = [] \<or> (length z > 1 \<and> hd z = CHR ''0'') then None
         else if r \<noteq> [] \<and> hd r \<in> {CHR ''.'', CHR ''e'', CHR ''E''} then None
         else Some ((if neg then - 1 else 1) * int (decValue z), r))"

definition startsWith :: "string \<Rightarrow> string \<Rightarrow> bool" where
  "startsWith p s = (take (length p) s = p)"

fun jsonValue :: "nat \<Rightarrow> string \<Rightarrow> (int jsval \<times> string) option"
  and jsonElements :: "nat \<Rightarrow> string \<Rightarrow> (int jsval list \<times> string) option"
  and jsonMembers :: "nat \<Rightarrow> string \<Rightarrow> ((string \<times> int jsval) list \<times> string) option"
where
  "jsonValue 0 s = None"
| "jsonValue (Suc k) s =
     (let t = dropWhile isJsonSpace s
      in if startsWith ''{'' t then
           (if startsWith ''}'' (dropWhile isJsonSpace (tl t))
            then Some (JObject [], tl (dropWhile isJsonSpace (tl t)))
            else map_option (\<lambda>(kv, r). (JObject kv, r)) (jsonMembers k (tl t)))
         else if startsWith ''['' t then
           (if startsWith '']'' (dropWhile isJsonSpace (tl t))
            then Some (JArray [], tl (dropWhile isJsonSpace (tl t)))
            else map_option (\<lambda>(xs, r). (JArray xs, r)) (jsonElements k (tl t)))
         else if startsWith [CHR 0x22] t then
           map_option (\<lambda>(x, r). (JString x, r)) (jsonString (tl t))
         else if startsWith ''true'' t then Some (JBool True, drop 4 t)
         else if startsWith ''false'' t then Some (JBool False, drop 5 t)
         else if startsWith ''null'' t then Some (JNull, drop 4 t)
         else map_option (\<lambda>(n, r). (JNumber n, r)) (jsonNumber t))"
| "jsonElements 0 s = None"
| "jsonElements (Suc k) s =
     (case jsonValue k s of
        None \<Rightarrow> None
      | Some (v, r) \<Rightarrow>
          (let t = dropWhile isJsonSpace r
           in if startsWith '','' t then
                map_option (\<lambda>(xs, r'). (v # xs, r')) (jsonElements k (tl t))
              else if startsWith '']'' t then Some ([v], tl t)
              else None))"
| "jsonMembers 0 s = None"
| "jsonMembers (Suc k) s =
     (let t = dropWhile isJsonSpace s
      in if startsWith [CHR 0x22] t then
           (case jsonString (tl t) of
              None \<Rightarrow> None
            | Some (key, r) \<Rightarrow>
                (let t1 = dropWhile isJsonSpace r
                 in if startsWith '':'' t1 then
                      (case jsonValue k (tl t1) of
                         None \<Rightarrow> None
                       | Some (v, r1) \<Rightarrow>
                           (let t2 = dropWhile isJsonSpace r1
                            in if startsWith '','' t2 then
                                 map_option (\<lambda>(kv, r'). ((key, v) # kv, r'))
                                   (jsonMembers k (tl t2))
                               else if startsWith ''}'' t2 then Some ([(key, v)], tl t2)
                               else None))
                    else None))
         else None)"

fun dedupKeys :: "'n jsval \<Rightarrow> 'n jsval" where
  \<comment> \<open>a repeated key keeps its first place and its last value\<close>
  "dedupKeys (JObject kv) =
     JObject (foldl (\<lambda>m (k, v). AList.update k v m) [] (map (\<lambda>(k, v). (k, dedupKeys v)) kv))"
| "dedupKeys (JArray xs) = JArray (map dedupKeys xs)"
| "dedupKeys v = v"

definition host_JSON_parse :: "string \<Rightarrow> error + int jsval" where
  "host_JSON_parse s =
     (case jsonValue (Suc (length s)) s of
        None \<Rightarrow> Inl SyntaxError
      | Some (v, r) \<Rightarrow> if dropWhile isJsonSpace r = [] then Inr (dedupKeys v) else Inl SyntaxError)"

fun decDigits :: "nat \<Rightarrow> string" where
  "decDigits n = (if n < 10 then [hexChar n] else decDigits (n div 10) @ [hexChar (n mod 10)])"

declare decDigits.simps [simp del]

definition showInt :: "int \<Rightarrow> string" where
  "showInt i = (if i < 0 then CHR ''-'' # decDigits (nat (- i)) else decDigits (nat i))"

definition escapeChar :: "char \<Rightarrow> string" where
  "escapeChar c =
     (if c = CHR 0x22 then [CHR 0x5C, CHR 0x22]
      else if c = CHR 0x5C then [CHR 0x5C, CHR 0x5C]
      else if c = CHR 0x08 then [CHR 0x5C, CHR ''b'']
      else if c = CHR 0x0C then [CHR 0x5C, CHR ''f'']
      else if c = CHR 0x0A then [CHR 0x5C, CHR ''n'']
      else if c = CHR 0x0D then [CHR 0x5C, CHR ''r'']
      else if c = CHR 0x09 then [CHR 0x5C, CHR ''t'']
      else if (of_char c :: nat) < 32
        then [CHR 0x5C, CHR ''u'', CHR ''0'', CHR ''0'', hexChar (of_char c div 16),
              hexChar (of_char c mod 16)]
      else [c])"

definition quoteString :: "string \<Rightarrow> string" where
  "quoteString s = CHR 0x22 # concat (map escapeChar s) @ [CHR 0x22]"

fun jsonText :: "int jsval \<Rightarrow> string"
  and jsonTexts :: "int jsval list \<Rightarrow> string"
  and jsonFields :: "(string \<times> int jsval) list \<Rightarrow> string"
where
  "jsonText JNull = ''null''"
| "jsonText (JBool b) = (if b then ''true'' else ''false'')"
| "jsonText (JNumber n) = showInt n"
| "jsonText (JString s) = quoteString s"
| "jsonText (JArray xs) = ''['' @ jsonTexts xs @ '']''"
| "jsonText (JObject kv) = ''{'' @ jsonFields kv @ ''}''"
| "jsonTexts [] = []"
| "jsonTexts [x] = jsonText x"
| "jsonTexts (x # y # xs) = jsonText x @ '','' @ jsonTexts (y # xs)"
| "jsonFields [] = []"
| "jsonFields [(k, v)] = quoteString k @ '':'' @ jsonText v"
| "jsonFields ((k, v) # f # fs) = quoteString k @ '':'' @ jsonText v @ '','' @ jsonFields (f # fs)"

fun valueToString :: "int jsval \<Rightarrow> error + string"
  and joinElements :: "int jsval list \<Rightarrow> error + string"
where
  "valueToString JNull = Inr ''null''"
| "valueToString (JBool b) = Inr (if b then ''true'' else ''false'')"
| "valueToString (JNumber n) = Inr (showInt n)"
| "valueToString (JString s) = Inr s"
| "valueToString (JArray xs) = joinElements xs"
| "valueToString (JObject kv) =
     (if map_of kv ''toString'' = None then Inr ''[object Object]'' else Inl TypeError)"
| "joinElements [] = Inr []"
| "joinElements (x # xs) =
     bindE (if x = JNull then Inr [] else valueToString x)
       (\<lambda>a. if xs = [] then Inr a else bindE (joinElements xs) (\<lambda>b. Inr (a @ '','' @ b)))"

definition host_stringifyOptions :: "'z requestInit_scheme option \<Rightarrow> error + unit" where
  \<comment> \<open>\<open>JSON.stringify(init, replacer, 2)\<close>: nothing to write for \<open>undefined\<close>; a property
      that holds the options object itself is a cycle\<close>
  "host_stringifyOptions init =
     (case init of
        None \<Rightarrow> Inr ()
      | Some r \<Rightarrow> if TheOptions \<in> snd ` set (others r) then Inl TypeError else Inr ())"

definition host :: "(int, 'z requestInit_scheme option) runtime" where
  "host = \<lparr> atob = host_atob, btoa = host_btoa, JSON_parse = host_JSON_parse,
            JSON_stringify = jsonText, ToString = valueToString,
            stringifyOptions = host_stringifyOptions \<rparr>"

section \<open>Vocabulary of the statements\<close>

definition paymentNames :: "string list" where
  \<comment> \<open>the four names in the order in which lines 62, 63, 68 and 69 try them\<close>
  "paymentNames = [''x-payment'', ''X-PAYMENT'', ''payment-signature'', ''PAYMENT-SIGNATURE'']"

definition lookupHeader :: "headersInit \<Rightarrow> string \<Rightarrow> string option" where
  \<comment> \<open>one lookup of the search: \<open>init.headers.get(name)\<close> or \<open>headers[name]\<close>\<close>
  "lookupHeader h name =
     (case h of
        HeadersObject hl \<Rightarrow> headersGet hl name
      | PlainObject kv \<Rightarrow> map_of kv name
      | _ \<Rightarrow> None)"

section \<open>A sample envelope\<close>

definition envelope :: "string \<Rightarrow> int jsval" where
  \<comment> \<open>the document \<open>{"payload":{"signature":sig}}\<close>\<close>
  "envelope sig = JObject [(''payload'', JObject [(''signature'', JString sig)])]"

definition envelopeText :: "string \<Rightarrow> string" where
  \<comment> \<open>its JSON text\<close>
  "envelopeText sig =
     ''{'' @ quoteString ''payload'' @ '':{'' @ quoteString ''signature'' @ '':''
       @ quoteString sig @ ''}}''"

definition sampleSignature :: string where
  \<comment> \<open>v = 86262 = 43113 * 2 + 35 + 1\<close>
  "sampleSignature =
     ''0x00000000000000000000000000000000000000000000000000000000000000000000000000000000000000000000000000000000000000000000000000000000150f6''"

definition sampleHeader :: string where
  \<comment> \<open>base64 of the envelope of \<open>sampleSignature\<close>\<close>
  "sampleHeader =
     ''eyJwYXlsb2FkIjp7InNpZ25hdHVyZSI6IjB4MDAwMDAwMDAwMDAwMDAwMDAwMDAwMDAwMDAwMDAwMDAwMDAwMDAwMDAwMDAwMDAwMDAwMDAwMDAwMDAwMDAwMDAwMDAwMDAwMDAwMDAwMDAwMDAwMDAwMDAwMDAwMDAwMDAwMDAwMDAwMDAwMDAwMDAwMDAwMDAwMDAwMDAwMDAxNTBmNiJ9fQ==''"

definition normalizedSignature :: string where
  "normalizedSignature =
     ''0x000000000000000000000000000000000000000000000000000000000000000000000000000000000000000000000000000000000000000000000000000000001c''"

definition normalizedHeader :: string where
  \<comment> \<open>base64 of the envelope of \<open>normalizedSignature\<close>\<close>
  "normalizedHeader =
     ''eyJwYXlsb2FkIjp7InNpZ25hdHVyZSI6IjB4MDAwMDAwMDAwMDAwMDAwMDAwMDAwMDAwMDAwMDAwMDAwMDAwMDAwMDAwMDAwMDAwMDAwMDAwMDAwMDAwMDAwMDAwMDAwMDAwMDAwMDAwMDAwMDAwMDAwMDAwMDAwMDAwMDAwMDAwMDAwMDAwMDAwMDAwMDAwMDAwMDAwMDAwMDAxYyJ9fQ==''"

definition otherHeader :: string where
  \<comment> \<open>base64 of the envelope of a signature with v = 86261\<close>
  "otherHeader =
     ''eyJwYXlsb2FkIjp7InNpZ25hdHVyZSI6IjB4MDAwMDAwMDAwMDAwMDAwMDAwMDAwMDAwMDAwMDAwMDAwMDAwMDAwMDAwMDAwMDAwMDAwMDAwMDAwMDAwMDAwMDAwMDAwMDAwMDAwMDAwMDAwMDAwMDAwMDAwMDAwMDAwMDAwMDAwMDAwMDAwMDAwMDAwMDAwMDAwMDAwMDAwMDAxNTBmNSJ9fQ==''"

section \<open>Facts about rounding\<close>

lemma bitLength_0 [simp]: "bitLength 0 = 0"
  by (simp add: bitLength.simps)

lemma bitLength_pos: "0 < n \<Longrightarrow> bitLength n = Suc (bitLength (n div 2))"
  by (subst bitLength.simps) simp

lemma bitLength_le: "n < 2 ^ k \<Longrightarrow> bitLength n \<le> k"
proof (induction k arbitrary: n)
  case 0
  then show ?case by simp
next
  case (Suc k)
  show ?case
  proof (cases "n = 0")
    case True
    then show ?thesis by simp
  next
    case False
    from Suc.prems have "n div 2 < 2 ^ k" by simp
    then have "bitLength (n div 2) \<le> k" by (rule Suc.IH)
    with False show ?thesis by (simp add: bitLength_pos)
  qed
qed

lemma bitLength_ge: "2 ^ k \<le> n \<Longrightarrow> Suc k \<le> bitLength n"
proof (induction k arbitrary: n)
  case 0
  then show ?case by (simp add: bitLength_pos)
next
  case (Suc k)
  then have "0 < n" by (metis gr0I not_less zero_less_numeral zero_less_power)
  from Suc.prems have "2 ^ k \<le> n div 2" by simp
  then have "Suc k \<le> bitLength (n div 2)" by (rule Suc.IH)
  with \<open>0 < n\<close> show ?case by (simp add: bitLength_pos)
qed

lemma bitLength_eq: "2 ^ k \<le> n \<Longrightarrow> n < 2 ^ Suc k \<Longrightarrow> bitLength n = Suc k"
  using bitLength_le [of n "Suc k"] bitLength_ge [of k n] by simp

lemma less_bitLength: "n < 2 ^ bitLength n"
proof (induction n rule: bitLength.induct)
  case (1 n)
  show ?case
  proof (cases "n = 0")
    case True
    then show ?thesis by simp
  next
    case False
    with 1 have "n div 2 < 2 ^ bitLength (n div 2)" by simp
    then have "n < 2 * 2 ^ bitLength (n div 2)" by simp
    with False show ?thesis by (simp add: bitLength_pos)
  qed
qed

lemma bitLength_lower: "0 < n \<Longrightarrow> 2 ^ (bitLength n - 1) \<le> n"
proof (induction n rule: bitLength.induct)
  case (1 n)
  show ?case
  proof (cases "n div 2 = 0")
    case True
    with 1(2) have "n = 1" by (simp add: div_eq_0_iff)
    then show ?thesis by (simp add: bitLength_pos)
  next
    case False
    with 1 have "2 ^ (bitLength (n div 2) - 1) \<le> n div 2" by simp
    then have a: "2 * 2 ^ (bitLength (n div 2) - 1) \<le> n" by simp
    from False have "0 < bitLength (n div 2)" by (simp add: bitLength_pos)
    then have "(2::nat) ^ bitLength (n div 2) = 2 * 2 ^ (bitLength (n div 2) - 1)"
      by (cases "bitLength (n div 2)") simp_all
    with a 1(2) show ?thesis by (simp add: bitLength_pos)
  qed
qed

lemma roundMagnitude_small: "m < 2 ^ 53 \<Longrightarrow> roundMagnitude m = m"
  using bitLength_le [of m 53] by (simp add: roundMagnitude_def)

lemma toDouble_small: "\<bar>i\<bar> < 2 ^ 53 \<Longrightarrow> toDouble i = Fin i"
proof -
  assume a: "\<bar>i\<bar> < 2 ^ 53"
  then have "nat \<bar>i\<bar> < 2 ^ 53" by (simp add: nat_less_iff)
  then have r: "roundMagnitude (nat \<bar>i\<bar>) = nat \<bar>i\<bar>" by (rule roundMagnitude_small)
  have "nat \<bar>i\<bar> < 2 ^ 1024" using \<open>nat \<bar>i\<bar> < 2 ^ 53\<close> by simp
  moreover have "sgn i * \<bar>i\<bar> = i" by (simp add: sgn_if)
  ultimately show ?thesis by (simp add: toDouble_def r)
qed

lemma bitLength_twice: "0 < m \<Longrightarrow> bitLength (2 * m) = Suc (bitLength m)"
  by (simp add: bitLength_pos)

lemma roundMagnitude_large:
  assumes "53 < bitLength m"
  shows "roundMagnitude m =
     (if 2 ^ (bitLength m - 54) < m mod 2 ^ (bitLength m - 53)
         \<or> (m mod 2 ^ (bitLength m - 53) = 2 ^ (bitLength m - 54)
             \<and> odd (m div 2 ^ (bitLength m - 53)))
      then m div 2 ^ (bitLength m - 53) + 1 else m div 2 ^ (bitLength m - 53))
       * 2 ^ (bitLength m - 53)"
proof -
  have "bitLength m - 53 - 1 = bitLength m - 54" by simp
  with assms show ?thesis by (simp add: roundMagnitude_def Let_def)
qed

lemma roundMagnitude_twice: "roundMagnitude (2 * m) = 2 * roundMagnitude m"
proof (cases "m = 0")
  case True
  then show ?thesis by (simp add: roundMagnitude_def)
next
  case False
  then have b: "bitLength (2 * m) = Suc (bitLength m)" by (simp add: bitLength_twice)
  consider "bitLength m < 53" | "bitLength m = 53" | "53 < bitLength m" by linarith
  then show ?thesis
  proof cases
    case 1
    then show ?thesis by (simp add: roundMagnitude_def b)
  next
    case 2
    have "roundMagnitude (2 * m) = 2 * m"
      by (simp add: roundMagnitude_large b 2)
    moreover have "roundMagnitude m = m" by (simp add: roundMagnitude_def 2)
    ultimately show ?thesis by simp
  next
    case 3
    define e where "e = bitLength m - 54"
    with 3 have k: "bitLength m = 54 + e" by simp
    have d: "(2 * m) div (2 * 2 ^ Suc e) = m div 2 ^ Suc e" by simp
    have r: "(2 * m) mod (2 * 2 ^ Suc e) = 2 * (m mod 2 ^ Suc e)"
      by (rule mult_mod_right [symmetric])
    have l: "53 < bitLength (2 * m)" using b 3 by simp
    have e1: "bitLength (2 * m) - 53 = Suc (Suc e)" "bitLength (2 * m) - 54 = Suc e"
      and e2: "bitLength m - 53 = Suc e" "bitLength m - 54 = e"
      using b k by simp_all
    show ?thesis
      unfolding roundMagnitude_large [OF l] roundMagnitude_large [OF 3] e1 e2
      using d r by (simp add: algebra_simps)
  qed
qed

lemma roundMagnitude_scaled: "q < 2 ^ 53 \<Longrightarrow> roundMagnitude (q * 2 ^ e) = q * 2 ^ e"
proof (induction e)
  case 0
  then show ?case by (simp add: roundMagnitude_small)
next
  case (Suc e)
  have "roundMagnitude (q * 2 ^ Suc e) = roundMagnitude (2 * (q * 2 ^ e))"
    by (simp add: mult.commute mult.left_commute)
  also have "\<dots> = 2 * roundMagnitude (q * 2 ^ e)" by (rule roundMagnitude_twice)
  also have "\<dots> = q * 2 ^ Suc e" using Suc by simp
  finally show ?case .
qed

lemma roundMagnitude_le_pow: "roundMagnitude m \<le> 2 ^ bitLength m"
proof (cases "53 < bitLength m")
  case False
  then have "roundMagnitude m = m" by (simp add: roundMagnitude_def)
  with less_bitLength [of m] show ?thesis by simp
next
  case True
  define e where "e = bitLength m - 53"
  with True have k: "bitLength m = 53 + e" by simp
  have "m < 2 ^ 53 * 2 ^ e" using less_bitLength [of m] by (simp add: k power_add)
  then have q: "m div 2 ^ e < 2 ^ 53"
    by (simp add: less_mult_imp_div_less)
  have "roundMagnitude m \<le> (m div 2 ^ e + 1) * 2 ^ e"
    unfolding roundMagnitude_large [OF True] e_def [symmetric] by simp
  also have "\<dots> \<le> 2 ^ 53 * 2 ^ e" using q by (intro mult_right_mono) simp_all
  finally show ?thesis by (simp add: k power_add)
qed

lemma roundMagnitude_top:
  assumes k: "bitLength m = 54 + e" and m: "m + 2 ^ e < 2 ^ (54 + e)"
  shows "roundMagnitude m < 2 ^ (54 + e)"
proof -
  have l: "53 < bitLength m" using k by simp
  have e: "bitLength m - 53 = Suc e" "bitLength m - 54 = e" using k by simp_all
  let ?q = "m div 2 ^ Suc e" and ?r = "m mod 2 ^ Suc e"
  have p: "(2::nat) ^ (54 + e) = 2 ^ 53 * 2 ^ Suc e" by (simp add: power_add)
  have dm: "m = ?q * 2 ^ Suc e + ?r" by (rule div_mult_mod_eq [symmetric])
  have "m < 2 ^ 53 * 2 ^ Suc e" using m p by linarith
  then have q: "?q < 2 ^ 53" by (simp add: less_mult_imp_div_less)
  show ?thesis
  proof (cases "?q + 1 < 2 ^ 53")
    case True
    have "roundMagnitude m \<le> (?q + 1) * 2 ^ Suc e"
      unfolding roundMagnitude_large [OF l] e by simp
    also have "\<dots> < 2 ^ 53 * 2 ^ Suc e" using True by (intro mult_strict_right_mono) simp_all
    finally show ?thesis by (simp only: p)
  next
    case False
    with q have q1: "?q + 1 = 2 ^ 53" by linarith
    have "?q * 2 ^ Suc e + 2 ^ Suc e = 2 ^ 53 * 2 ^ Suc e"
      using q1 by (metis add_mult_distrib mult_1)
    with m p dm have "?r + 2 ^ e < 2 ^ Suc e" by linarith
    then have rr: "?r < 2 ^ e" by simp
    then have "roundMagnitude m = ?q * 2 ^ Suc e"
      unfolding roundMagnitude_large [OF l] e by simp
    also have "\<dots> < 2 ^ 53 * 2 ^ Suc e" using q by (intro mult_strict_right_mono) simp_all
    finally show ?thesis by (simp only: p)
  qed
qed

lemma roundMagnitude_finite:
  assumes "m + 2 ^ 970 < 2 ^ 1024"
  shows "roundMagnitude m < 2 ^ 1024"
proof (cases "bitLength m \<le> 1023")
  case True
  have "roundMagnitude m \<le> 2 ^ bitLength m" by (rule roundMagnitude_le_pow)
  also have "\<dots> \<le> 2 ^ 1023" using True by (intro power_increasing) simp_all
  also have "\<dots> < (2::nat) ^ 1024" by (intro power_strict_increasing) simp_all
  finally show ?thesis .
next
  case False
  from assms have "m < 2 ^ 1024" by linarith
  then have "bitLength m \<le> 1024" by (rule bitLength_le)
  with False have k: "bitLength m = 54 + 970" by simp
  from assms have "m + 2 ^ 970 < 2 ^ (54 + 970)" by simp
  with k have "roundMagnitude m < 2 ^ (54 + 970)" by (rule roundMagnitude_top)
  then show ?thesis by simp
qed

lemma representable_gap:
  assumes r: "roundMagnitude m = m" and k: "bitLength m = 53 + e" and e: "0 < e"
  shows "m + 2 ^ e \<le> 2 ^ (53 + e)"
proof -
  have l: "53 < bitLength m" using k e by simp
  have ee: "bitLength m - 53 = e" using k by simp
  from r have "2 ^ e dvd m"
    unfolding roundMagnitude_large [OF l] ee by (metis dvd_triv_right)
  then obtain t where t: "m = t * 2 ^ e" by (auto simp: dvd_def mult.commute)
  have "m < 2 ^ 53 * 2 ^ e" using less_bitLength [of m] by (simp add: k power_add)
  with t have "t < 2 ^ 53" by simp
  then have "t + 1 \<le> 2 ^ 53" by simp
  then have "(t + 1) * 2 ^ e \<le> 2 ^ 53 * 2 ^ e" by (intro mult_right_mono) simp_all
  with t show ?thesis by (simp add: power_add algebra_simps)
qed

section \<open>Facts about parsing and rendering\<close>

lemmas parse_defs = parseInt16_def stripSign_def stripPrefix_def isWhiteSpace_def
  isHexDigit_def hexDigitValue_def hexValue_def

lemma hexDigits_one: "n < 16 \<Longrightarrow> hexDigits n = [hexChar n]"
  by (subst hexDigits.simps) simp

lemma hexDigits_two:
  assumes "16 \<le> n" "n < 256"
  shows "hexDigits n = [hexChar (n div 16), hexChar (n mod 16)]"
proof -
  from assms have "n div 16 < 16" by simp
  then have "hexDigits (n div 16) = [hexChar (n div 16)]" by (rule hexDigits_one)
  with assms show ?thesis by (subst hexDigits.simps) simp
qed

lemma hexChar_lower: "d < 16 \<Longrightarrow> isLowerHexDigit (hexChar d)"
  unfolding isLowerHexDigit_def hexChar_def by (rule nth_mem) simp

lemma render_byte:
  assumes "0 \<le> i" "i < 256"
  shows "padStart2 (toString16 (Fin i)) = [hexChar (nat i div 16), hexChar (nat i mod 16)]"
proof (cases "nat i < 16")
  case True
  then have "hexDigits (nat i) = [hexChar (nat i)]" by (rule hexDigits_one)
  moreover have "hexChar 0 = CHR ''0''" by (simp add: hexChar_def)
  ultimately show ?thesis using assms True
    by (simp add: padStart2_def toString16_def)
next
  case False
  with assms have "hexDigits (nat i) = [hexChar (nat i div 16), hexChar (nat i mod 16)]"
    by (intro hexDigits_two) auto
  then show ?thesis using assms by (simp add: padStart2_def toString16_def)
qed

lemma render_27: "padStart2 (toString16 (Fin 27)) = ''1b''"
  by (simp add: render_byte hexChar_def)

lemma render_28: "padStart2 (toString16 (Fin 28)) = ''1c''"
  by (simp add: render_byte hexChar_def)

lemma render_26: "padStart2 (toString16 (Fin 26)) = ''1a''"
  by (simp add: render_byte hexChar_def)

lemma render_NaN: "padStart2 (toString16 NaN) = ''NaN''"
  by (simp add: padStart2_def toString16_def)

lemma hexDigitValue_less: "hexDigitValue c = Some d \<Longrightarrow> d < 16"
  by (auto simp: hexDigitValue_def Let_def split: if_splits)

lemma hex_not_space: "isHexDigit c \<Longrightarrow> \<not> isWhiteSpace c"
  by (auto simp: isHexDigit_def hexDigitValue_def isWhiteSpace_def Let_def split: if_splits)

lemma not_hex_marks:
  "\<not> isHexDigit (CHR ''-'')" "\<not> isHexDigit (CHR ''+'')"
  "\<not> isHexDigit (CHR ''x'')" "\<not> isHexDigit (CHR ''X'')"
  by (simp_all add: isHexDigit_def hexDigitValue_def)

lemma hexValue_small:
  assumes "\<forall>c \<in> set z. isHexDigit c" "length z \<le> 2"
  shows "hexValue z < 256"
proof -
  have d: "isHexDigit c \<Longrightarrow> the (hexDigitValue c) < 16" for c
    by (auto simp: isHexDigit_def dest: hexDigitValue_less)
  consider "z = []" | a where "z = [a]" | a b where "z = [a, b]"
    using assms(2) by (cases z; cases "tl z"; cases "tl (tl z)") auto
  then show ?thesis
  proof cases
    case 1 then show ?thesis by (simp add: hexValue_def)
  next
    case 2
    with assms d [of a] show ?thesis by (simp add: hexValue_def)
  next
    case 3
    with assms d [of a] d [of b] show ?thesis by (simp add: hexValue_def)
  qed
qed

lemma parseInt16_digits:
  assumes "z \<noteq> []" "\<forall>c \<in> set z. isHexDigit c" "length z \<le> 2"
  shows "parseInt16 z = Fin (int (hexValue z))"
proof -
  from assms obtain a r where z: "z = a # r" by (cases z) auto
  with assms have a: "isHexDigit a" by simp
  then have "\<not> isWhiteSpace a" by (rule hex_not_space)
  then have dw: "dropWhile isWhiteSpace z = z" by (simp add: z)
  from a not_hex_marks have "a \<noteq> CHR ''-''" "a \<noteq> CHR ''+''" by auto
  then have ss: "stripSign z = (1, z)" by (simp add: stripSign_def z)
  have sp: "stripPrefix z = z"
  proof (cases r)
    case Nil
    then show ?thesis by (simp add: stripPrefix_def z)
  next
    case (Cons b r')
    with assms z have "isHexDigit b" by simp
    with not_hex_marks have "b \<noteq> CHR ''x''" "b \<noteq> CHR ''X''" by auto
    then show ?thesis by (simp add: stripPrefix_def z Cons)
  qed
  from assms have tw: "takeWhile isHexDigit z = z" by (simp add: takeWhile_eq_all_conv)
  have "hexValue z < 256" using assms(2,3) by (rule hexValue_small)
  then have "toDouble (int (hexValue z)) = Fin (int (hexValue z))"
    by (intro toDouble_small) simp
  then show ?thesis using assms(1) by (simp add: parseInt16_def dw ss sp tw)
qed

lemma remN_2_range: "\<exists>y. remN (Fin a) (Fin 2) = Fin y \<and> - 1 \<le> y \<and> y \<le> 1"
proof -
  have "\<bar>a\<bar> mod 2 = 0 \<or> \<bar>a\<bar> mod 2 = 1" by presburger
  then show ?thesis by (auto simp: sgn_if)
qed

lemma normalizeSignatureV_append:
  "length pre = 130 \<Longrightarrow>
   normalizeSignatureV (pre @ v) chainId =
     pre @ padStart2 (toString16 (normalizedV (parseInt16 v) chainId))"
  by (simp add: normalizeSignatureV_def)

lemma parse_samples:
  "parseInt16 ''26'' = Fin 38" "parseInt16 ''150f5'' = Fin 86261"
  "parseInt16 ''150f6'' = Fin 86262" "parseInt16 ''1B'' = Fin 27"
  "parseInt16 ''1c'' = Fin 28" "parseInt16 ''1b'' = Fin 27"
  by (simp_all add: parse_defs toDouble_small)

lemma toDouble_magnitude:
  assumes "roundMagnitude (nat \<bar>i\<bar>) = nat \<bar>i\<bar>" and "nat \<bar>i\<bar> < 2 ^ 1024"
  shows "toDouble i = Fin i"
proof -
  have "sgn i * int (nat \<bar>i\<bar>) = i" by (simp add: sgn_if)
  with assms(2) show ?thesis by (simp add: toDouble_def assms(1))
qed

lemma toDouble_scaled:
  assumes "q < 2 ^ 53" and "q * 2 ^ e < 2 ^ 1024"
  shows "toDouble (int (q * 2 ^ e)) = Fin (int (q * 2 ^ e))"
    and "toDouble (- int (q * 2 ^ e)) = Fin (- int (q * 2 ^ e))"
proof -
  have r: "roundMagnitude (q * 2 ^ e) = q * 2 ^ e" using assms(1) by (rule roundMagnitude_scaled)
  have a: "nat \<bar>int (q * 2 ^ e)\<bar> = q * 2 ^ e" by (simp only: abs_of_nat nat_int)
  have b: "nat \<bar>- int (q * 2 ^ e)\<bar> = q * 2 ^ e" by (simp only: abs_minus abs_of_nat nat_int)
  show "toDouble (int (q * 2 ^ e)) = Fin (int (q * 2 ^ e))"
    by (rule toDouble_magnitude) (simp_all only: a r assms(2))
  show "toDouble (- int (q * 2 ^ e)) = Fin (- int (q * 2 ^ e))"
    by (rule toDouble_magnitude) (simp_all only: b r assms(2))
qed

lemma toDouble_exact: "\<bar>i\<bar> \<le> 2 ^ 53 \<Longrightarrow> toDouble i = Fin i"
proof (cases "\<bar>i\<bar> < 2 ^ 53")
  case True
  then show ?thesis by (rule toDouble_small)
next
  case False
  assume "\<bar>i\<bar> \<le> 2 ^ 53"
  with False have "\<bar>i\<bar> = 2 ^ 53" by simp
  then have "i = 2 ^ 53 \<or> i = - (2 ^ 53)" by (simp add: abs_if split: if_splits)
  moreover have "toDouble (2 ^ 53) = Fin (2 ^ 53)" "toDouble (- (2 ^ 53)) = Fin (- (2 ^ 53))"
    using toDouble_scaled [of 1 53] by simp_all
  ultimately show ?thesis by auto
qed

lemma double_magnitude:
  assumes "toDouble c = Fin c"
  shows "roundMagnitude (nat \<bar>c\<bar>) = nat \<bar>c\<bar>"
proof -
  define x where "x = roundMagnitude (nat \<bar>c\<bar>)"
  from assms have s: "sgn c * int x = c"
    by (simp add: toDouble_def Let_def x_def split: if_splits)
  have "x = nat \<bar>c\<bar>"
  proof (cases "c = 0")
    case True
    then show ?thesis by (simp add: x_def roundMagnitude_small)
  next
    case False
    with s show ?thesis by (auto simp: sgn_if split: if_splits)
  qed
  then show ?thesis by (simp only: x_def)
qed

lemma toDouble_finite:
  assumes "\<bar>i\<bar> + 2 ^ 970 < 2 ^ 1024"
  shows "\<exists>d. toDouble i = Fin d"
proof -
  have "int (nat \<bar>i\<bar> + 2 ^ 970) < int (2 ^ 1024)" using assms by simp
  then have "nat \<bar>i\<bar> + 2 ^ 970 < 2 ^ 1024" by (simp only: of_nat_less_iff)
  then have "roundMagnitude (nat \<bar>i\<bar>) < 2 ^ 1024" by (rule roundMagnitude_finite)
  then show ?thesis by (simp add: toDouble_def Let_def)
qed

lemma double_twice:
  assumes d: "toDouble c = Fin c" and b: "\<bar>c\<bar> < 2 ^ 1023"
  shows "toDouble (c * 2) = Fin (c * 2)"
proof -
  have m: "nat \<bar>c * 2\<bar> = 2 * nat \<bar>c\<bar>" by (simp add: abs_mult nat_mult_distrib)
  have r: "roundMagnitude (nat \<bar>c * 2\<bar>) = 2 * nat \<bar>c\<bar>"
    by (simp only: m roundMagnitude_twice double_magnitude [OF d])
  have "int (2 * nat \<bar>c\<bar>) < int (2 ^ 1024)" using b by simp
  then have n: "\<not> 2 ^ 1024 \<le> 2 * nat \<bar>c\<bar>" by (simp only: of_nat_less_iff not_le)
  have "sgn (c * 2) * int (2 * nat \<bar>c\<bar>) = c * 2" by (simp add: sgn_if)
  then show ?thesis unfolding toDouble_def r Let_def using n by simp
qed

lemma double_below_top:
  assumes d: "toDouble c = Fin c" and b: "\<bar>c\<bar> < 2 ^ 1023"
  shows "\<bar>c\<bar> + 2 ^ 970 \<le> 2 ^ 1023"
proof -
  let ?m = "nat \<bar>c\<bar>"
  have r: "roundMagnitude ?m = ?m" using d by (rule double_magnitude)
  have "int ?m < int (2 ^ 1023)" using b by simp
  then have "?m < 2 ^ 1023" by (simp only: of_nat_less_iff)
  then have k: "bitLength ?m \<le> 1023" by (rule bitLength_le)
  have "?m + 2 ^ 970 \<le> 2 ^ 1023"
  proof (cases "bitLength ?m = 1023")
    case True
    then have "bitLength ?m = 53 + 970" by simp
    with r have "?m + 2 ^ 970 \<le> 2 ^ (53 + 970)" by (rule representable_gap) simp
    then show ?thesis by simp
  next
    case False
    with k have "bitLength ?m \<le> 1022" by simp
    with less_bitLength [of ?m] have "?m < 2 ^ 1022"
      by (meson less_le_trans one_le_numeral power_increasing)
    then show ?thesis by simp
  qed
  then have "int (?m + 2 ^ 970) \<le> int (2 ^ 1023)" by (simp only: of_nat_le_iff)
  then show ?thesis by simp
qed

lemma toDouble_even:
  assumes "2 ^ 53 < \<bar>d\<bar>" and "toDouble d = Fin x"
  shows "even x"
proof -
  let ?m = "nat \<bar>d\<bar>"
  have "int (2 ^ 53) \<le> int ?m" using assms(1) by simp
  then have "2 ^ 53 \<le> ?m" by (simp only: of_nat_le_iff)
  then have "Suc 53 \<le> bitLength ?m" by (rule bitLength_ge)
  then have l: "53 < bitLength ?m" by simp
  then have "0 < bitLength ?m - 53" by simp
  then have "even ((2::nat) ^ (bitLength ?m - 53))" by simp
  then have "even (roundMagnitude ?m)"
    unfolding roundMagnitude_large [OF l] by (rule dvd_mult)
  moreover from assms(2) have "x = sgn d * int (roundMagnitude ?m)"
    by (simp add: toDouble_def Let_def split: if_splits)
  ultimately show ?thesis by simp
qed

lemma normalizedV_byte:
  assumes v: "0 \<le> v" "v < 256"
    and d: "toDouble chainId = Fin chainId" and b: "\<bar>chainId\<bar> < 2 ^ 1023"
  shows "\<exists>n. normalizedV (Fin v) chainId = Fin n \<and> 0 \<le> n \<and> n < 256
           \<and> (if v < 2 then n = v + 27 else if v < 35 then n = v
               else n = 27 + (if \<bar>v - 35 - chainId * 2\<bar> \<le> 2 ^ 53
                              then sgn (v - 35 - chainId * 2) * (\<bar>v - 35 - chainId * 2\<bar> mod 2)
                              else 0))"
proof (cases "v < 35")
  case True
  have "toDouble (v + 27) = Fin (v + 27)" using v by (intro toDouble_small) simp
  with True v show ?thesis by (auto simp: normalizedV_def)
next
  case False
  then have ge: "35 \<le> v" by simp
  define e where "e = v - 35 - chainId * 2"
  define y where "y = (if \<bar>e\<bar> \<le> 2 ^ 53 then sgn e * (\<bar>e\<bar> mod 2) else 0)"
  have a: "subN (Fin v) (Fin 35) = Fin (v - 35)"
    using v by (simp add: subN_def toDouble_small)
  have m: "mulN (toDouble chainId) (Fin 2) = Fin (chainId * 2)"
    by (simp add: d double_twice [OF d b])
  have "\<bar>chainId\<bar> + 2 ^ 970 \<le> 2 ^ 1023" using d b by (rule double_below_top)
  then have "\<bar>e\<bar> + 2 ^ 970 < 2 ^ 1024" using v ge by (simp add: e_def)
  then obtain x where x: "toDouble e = Fin x"
    using toDouble_finite by blast
  then have s: "subN (Fin (v - 35)) (Fin (chainId * 2)) = Fin x" by (simp add: subN_def e_def)
  have r: "remN (Fin x) (Fin 2) = Fin y"
  proof (cases "\<bar>e\<bar> \<le> 2 ^ 53")
    case True
    then have "toDouble e = Fin e" by (rule toDouble_exact)
    with x have "x = e" by simp
    with True show ?thesis by (simp add: y_def)
  next
    case False
    then have "2 ^ 53 < \<bar>e\<bar>" by simp
    then have "even x" using x by (rule toDouble_even)
    then have "\<bar>x\<bar> mod 2 = 0" by presburger
    with False show ?thesis by (simp add: y_def)
  qed
  have yr: "- 1 \<le> y" "y \<le> 1"
  proof -
    have "\<bar>e\<bar> mod 2 = 0 \<or> \<bar>e\<bar> mod 2 = 1" by presburger
    then show "- 1 \<le> y" "y \<le> 1" by (auto simp: y_def sgn_if)
  qed
  then have "toDouble (y + 27) = Fin (y + 27)" by (intro toDouble_small) simp
  then have "normalizedV (Fin v) chainId = Fin (y + 27)"
    using ge by (simp add: normalizedV_def a m s r del: remN.simps)
  with yr ge show ?thesis by (simp add: y_def e_def)
qed

lemma hexDigitValue_hexChar: "d < 16 \<Longrightarrow> hexDigitValue (hexChar d) = Some d"
proof -
  assume "d < 16"
  then have "d = 0 \<or> d = 1 \<or> d = 2 \<or> d = 3 \<or> d = 4 \<or> d = 5 \<or> d = 6 \<or> d = 7
      \<or> d = 8 \<or> d = 9 \<or> d = 10 \<or> d = 11 \<or> d = 12 \<or> d = 13 \<or> d = 14 \<or> d = 15"
    by arith
  then show ?thesis
    by (elim disjE) (simp_all add: hexChar_def hexDigitValue_def)
qed

lemmas number_defs = normalizedV_def subN_def toDouble_small

section \<open>The claims about normalizeSignatureV\<close>

text \<open>
  C1. The claim: whenever the parsed v is at least 35, for every integer chain id, the parity
  \<open>(vValue - 35 - chainId * 2) mod 2\<close> is 0 or 1 and the normalized v is 27 or 28. The
  operator \<open>%\<close> of the code keeps the sign of the dividend: a signature made for chain 1 with
  v = 38 (hex 26), normalized for chain 43113, has the odd negative difference -86223, the
  parity -1 and the normalized v 26, written \<open>1a\<close>.
\<close>

theorem normalizeSignatureV_negative_parity:
  "parseInt16 (drop 130 (''0x'' @ replicate 128 (CHR ''0'') @ ''26'')) = Fin 38
   \<and> remN (subN (subN (Fin 38) (Fin 35)) (mulN (toDouble 43113) (Fin 2))) (Fin 2) = Fin (- 1)
   \<and> normalizedV (Fin 38) 43113 = Fin 26
   \<and> normalizeSignatureV (''0x'' @ replicate 128 (CHR ''0'') @ ''26'') 43113
       = ''0x'' @ replicate 128 (CHR ''0'') @ ''1a''"
proof -
  have l: "length (''0x'' @ replicate 128 (CHR ''0'')) = 130" by simp
  have r: "remN (subN (subN (Fin 38) (Fin 35)) (mulN (toDouble 43113) (Fin 2))) (Fin 2)
      = Fin (- 1)"
    by (simp add: number_defs)
  have n: "normalizedV (Fin 38) 43113 = Fin 26" by (simp add: number_defs)
  have "normalizeSignatureV ((''0x'' @ replicate 128 (CHR ''0'')) @ ''26'') 43113
      = (''0x'' @ replicate 128 (CHR ''0'')) @ ''1a''"
    by (simp only: normalizeSignatureV_append [OF l] parse_samples n render_26)
  with r n show ?thesis by (simp add: parse_samples)
qed

text \<open>
  C3. The claim: with chain id 43113, a signature whose v is 86261 is normalized to 28. Since
  \<open>43113 * 2 + 35 = 86261\<close>, that v carries parity 0, and the code gives 27 (\<open>1b\<close>).
\<close>

theorem normalizeSignatureV_fuji_86261_counterexample:
  "normalizedV (parseInt16 (drop 130 (''0x'' @ replicate 128 (CHR ''0'') @ ''150f5''))) 43113
     \<noteq> Fin 28
   \<and> normalizeSignatureV (''0x'' @ replicate 128 (CHR ''0'') @ ''150f5'') 43113
     \<noteq> ''0x'' @ replicate 128 (CHR ''0'') @ ''1c''"
proof -
  have l: "length (''0x'' @ replicate 128 (CHR ''0'')) = 130" by simp
  have n: "normalizedV (Fin 86261) 43113 = Fin 27" by (simp add: number_defs)
  have "normalizeSignatureV ((''0x'' @ replicate 128 (CHR ''0'')) @ ''150f5'') 43113
      = (''0x'' @ replicate 128 (CHR ''0'')) @ ''1b''"
    by (simp only: normalizeSignatureV_append [OF l] parse_samples n render_27)
  with n show ?thesis by (simp add: parse_samples)
qed

text \<open>
  C3, as the code has it: with chain id 43113, every signature whose v parses to 86261
  (parity 0) is normalized to 27: the first 130 characters followed by \<open>1b\<close>.
\<close>

theorem normalizeSignatureV_fuji_86261:
  assumes "parseInt16 (drop 130 signature) = Fin 86261"
  shows "normalizedV (parseInt16 (drop 130 signature)) 43113 = Fin 27
       \<and> normalizeSignatureV signature 43113 = take 130 signature @ ''1b''"
proof -
  have "normalizedV (Fin 86261) 43113 = Fin 27" by (simp add: number_defs)
  with assms show ?thesis by (simp add: normalizeSignatureV_def render_27)
qed

theorem normalizeSignatureV_fuji_86261_witness:
  "parseInt16 (drop 130 (''0x'' @ replicate 128 (CHR ''0'') @ ''150f5'')) = Fin 86261
   \<and> normalizeSignatureV (''0x'' @ replicate 128 (CHR ''0'') @ ''150f5'') 43113
       = ''0x'' @ replicate 128 (CHR ''0'') @ ''1b''"
proof -
  have h: "parseInt16 (drop 130 (''0x'' @ replicate 128 (CHR ''0'') @ ''150f5'')) = Fin 86261"
    by (simp add: parse_samples)
  from normalizeSignatureV_fuji_86261 [OF h] h show ?thesis by simp
qed

text \<open>
  C5. The claim: when v parses to 27 or 28 the input is returned unchanged. The parse accepts
  upper case (and white space, a sign, a \<open>0x\<close>, trailing text), while the output always ends
  in the two lowercase digits: a signature ending in \<open>1B\<close> comes back ending in \<open>1b\<close>.
\<close>

theorem normalizeSignatureV_legacy_counterexample:
  "parseInt16 (drop 130 (''0x'' @ replicate 128 (CHR ''A'') @ ''1B'')) = Fin 27
   \<and> normalizeSignatureV (''0x'' @ replicate 128 (CHR ''A'') @ ''1B'') 43113
       \<noteq> ''0x'' @ replicate 128 (CHR ''A'') @ ''1B''"
proof -
  have l: "length (''0x'' @ replicate 128 (CHR ''A'')) = 130" by simp
  have n: "normalizedV (Fin 27) 43113 = Fin 27" by (simp add: normalizedV_def)
  have "normalizeSignatureV ((''0x'' @ replicate 128 (CHR ''A'')) @ ''1B'') 43113
      = (''0x'' @ replicate 128 (CHR ''A'')) @ ''1b''"
    by (simp only: normalizeSignatureV_append [OF l] parse_samples n render_27)
  then show ?thesis by (simp add: parse_samples)
qed

text \<open>
  C5, as the code has it: when v parses to 27 or 28, for every chain id, the normalized v is
  that same value and the output is the first 130 characters followed by its two lowercase
  hex digits (\<open>1b\<close> or \<open>1c\<close>); the input is returned unchanged when its part after offset 130
  is already written that way.
\<close>

theorem normalizeSignatureV_legacy:
  assumes "parseInt16 (drop 130 signature) = Fin v" and "v = 27 \<or> v = 28"
  shows "normalizedV (parseInt16 (drop 130 signature)) chainId = Fin v
       \<and> normalizeSignatureV signature chainId
           = take 130 signature @ (if v = 27 then ''1b'' else ''1c'')
       \<and> (drop 130 signature = ''1b'' \<or> drop 130 signature = ''1c''
            \<longrightarrow> normalizeSignatureV signature chainId = signature)"
proof -
  have n: "normalizedV (Fin v) chainId = Fin v"
    using assms(2) by (auto simp: normalizedV_def)
  have out: "normalizeSignatureV signature chainId
      = take 130 signature @ (if v = 27 then ''1b'' else ''1c'')"
    using assms(2) by (auto simp: normalizeSignatureV_def assms(1) n render_27 render_28)
  have same: "normalizeSignatureV signature chainId = signature"
    if "drop 130 signature = ''1b'' \<or> drop 130 signature = ''1c''"
  proof -
    from that assms(1) have "drop 130 signature = (if v = 27 then ''1b'' else ''1c'')"
      by (auto simp: parse_samples)
    then have "normalizeSignatureV signature chainId = take 130 signature @ drop 130 signature"
      by (simp only: out)
    then show ?thesis by simp
  qed
  from n out same show ?thesis by (simp add: assms(1))
qed

theorem normalizeSignatureV_legacy_witness:
  "parseInt16 (drop 130 (''0x'' @ replicate 128 (CHR ''0'') @ ''1c'')) = Fin 28
   \<and> drop 130 (''0x'' @ replicate 128 (CHR ''0'') @ ''1c'') = ''1c''
   \<and> normalizeSignatureV (''0x'' @ replicate 128 (CHR ''0'') @ ''1c'') 43113
       = ''0x'' @ replicate 128 (CHR ''0'') @ ''1c''"
proof -
  let ?s = "''0x'' @ replicate 128 (CHR ''0'') @ ''1c''"
  have d: "drop 130 ?s = ''1c''" by simp
  have h: "parseInt16 (drop 130 ?s) = Fin 28" by (simp add: parse_samples)
  have v: "(28::int) = 27 \<or> (28::int) = 28" by simp
  from normalizeSignatureV_legacy [OF h v, of 43113] d h show ?thesis by simp
qed

text \<open>
  C4. The claim: when the part after offset 130 is one or two hex digits, the output is as
  long as the input and ends in two lowercase hex digits. With a single digit the output is
  one character longer, since v is always written with two digits. With a chain id of
  \<open>2^1023\<close> the product \<open>chainId * 2\<close> is infinite, the parity is NaN, and the output ends
  in \<open>NaN\<close>.
\<close>

theorem normalizeSignatureV_length_counterexample:
  "length (drop 130 (''0x'' @ replicate 128 (CHR ''0'') @ ''1'')) = 1
   \<and> isHexDigit (CHR ''1'')
   \<and> length (normalizeSignatureV (''0x'' @ replicate 128 (CHR ''0'') @ ''1'') 43113)
       \<noteq> length (''0x'' @ replicate 128 (CHR ''0'') @ ''1'')
   \<and> drop 130 (''0x'' @ replicate 128 (CHR ''0'') @ ''96'') = ''96''
   \<and> isHexDigit (CHR ''9'') \<and> isHexDigit (CHR ''6'')
   \<and> normalizeSignatureV (''0x'' @ replicate 128 (CHR ''0'') @ ''96'') (2 ^ 1023)
       = ''0x'' @ replicate 128 (CHR ''0'') @ ''NaN''"
proof -
  have l: "length (''0x'' @ replicate 128 (CHR ''0'')) = 130" by simp
  have p: "parseInt16 ''1'' = Fin 1" by (simp add: parse_defs toDouble_small)
  have n: "normalizedV (Fin 1) 43113 = Fin 28" by (simp add: normalizedV_def toDouble_small)
  have a: "normalizeSignatureV ((''0x'' @ replicate 128 (CHR ''0'')) @ ''1'') 43113
      = (''0x'' @ replicate 128 (CHR ''0'')) @ ''1c''"
    by (simp only: normalizeSignatureV_append [OF l] p n render_28)
  have q: "parseInt16 ''96'' = Fin 150" by (simp add: parse_defs toDouble_small)
  have c: "toDouble (2 ^ 1023) = Fin (2 ^ 1023)"
    using toDouble_scaled(1) [of 1 1023] by simp
  have "roundMagnitude (1 * 2 ^ 1024) = 1 * 2 ^ 1024" by (rule roundMagnitude_scaled) simp
  then have t: "toDouble (2 ^ 1024) = PosInf" by (simp add: toDouble_def)
  have e: "(2::int) ^ 1023 * 2 = 2 ^ 1024" by simp
  have m: "mulN (toDouble (2 ^ 1023)) (Fin 2) = PosInf"
    by (simp only: c mulN.simps e t)
  have "normalizedV (Fin 150) (2 ^ 1023) = NaN"
    unfolding normalizedV_def m by (simp add: subN_def toDouble_small)
  then have b: "normalizeSignatureV ((''0x'' @ replicate 128 (CHR ''0'')) @ ''96'') (2 ^ 1023)
      = (''0x'' @ replicate 128 (CHR ''0'')) @ ''NaN''"
    by (simp only: normalizeSignatureV_append [OF l] q render_NaN)
  from a b show ?thesis by (simp add: isHexDigit_def hexDigitValue_def)
qed

text \<open>
  C4, as the code has it: when the part after offset 130 is one or two hex digits and the
  chain id is a double of magnitude below \<open>2^1023\<close>, the output is the first 130 characters
  followed by exactly two lowercase hex digits, which denote the normalized v: v + 27 for a
  v of 0 or 1, v itself for another v below 35, and otherwise 27 plus the remainder by 2 of
  \<open>v - 35 - chainId * 2\<close>, which has the sign of that difference, and which is 0 once the
  difference is beyond \<open>2^53\<close> and rounded to an even double. The output has 132
  characters, which is the length of the input exactly when that part had two digits.
\<close>

theorem normalizeSignatureV_short_hex:
  assumes len: "length (drop 130 signature) = 1 \<or> length (drop 130 signature) = 2"
    and hex: "\<forall>c \<in> set (drop 130 signature). isHexDigit c"
    and dbl: "toDouble chainId = Fin chainId" and bound: "\<bar>chainId\<bar> < 2 ^ 1023"
  shows "\<exists>v n x y.
           parseInt16 (drop 130 signature) = Fin v
         \<and> normalizedV (Fin v) chainId = Fin n
         \<and> (if v < 2 then n = v + 27 else if v < 35 then n = v
             else n = 27 + (if \<bar>v - 35 - chainId * 2\<bar> \<le> 2 ^ 53
                            then sgn (v - 35 - chainId * 2) * (\<bar>v - 35 - chainId * 2\<bar> mod 2)
                            else 0))
         \<and> normalizeSignatureV signature chainId = take 130 signature @ [x, y]
         \<and> isLowerHexDigit x \<and> isLowerHexDigit y
         \<and> hexDigitValue x = Some (nat n div 16) \<and> hexDigitValue y = Some (nat n mod 16)
         \<and> length (normalizeSignatureV signature chainId) = 132
         \<and> (length (normalizeSignatureV signature chainId) = length signature
              \<longleftrightarrow> length (drop 130 signature) = 2)"
proof -
  let ?z = "drop 130 signature"
  let ?v = "int (hexValue ?z)"
  from len have ne: "?z \<noteq> []" and le: "length ?z \<le> 2" by auto
  have p: "parseInt16 ?z = Fin ?v"
    using ne hex le by (rule parseInt16_digits)
  have "hexValue ?z < 256" using hex le by (rule hexValue_small)
  then have v: "0 \<le> ?v" "?v < 256" by simp_all
  from normalizedV_byte [OF v dbl bound] obtain n
    where n: "normalizedV (Fin ?v) chainId = Fin n"
      and r: "0 \<le> n" "n < 256"
      and c: "if ?v < 2 then n = ?v + 27 else if ?v < 35 then n = ?v
              else n = 27 + (if \<bar>?v - 35 - chainId * 2\<bar> \<le> 2 ^ 53
                             then sgn (?v - 35 - chainId * 2) * (\<bar>?v - 35 - chainId * 2\<bar> mod 2)
                             else 0)"
    by blast
  let ?x = "hexChar (nat n div 16)" and ?y = "hexChar (nat n mod 16)"
  have out: "normalizeSignatureV signature chainId = take 130 signature @ [?x, ?y]"
    using r by (simp add: normalizeSignatureV_def p n render_byte)
  from r have d: "nat n div 16 < 16" by simp
  have x: "isLowerHexDigit ?x" using d by (rule hexChar_lower)
  have y: "isLowerHexDigit ?y" by (rule hexChar_lower) simp
  have hx: "hexDigitValue ?x = Some (nat n div 16)" using d by (rule hexDigitValue_hexChar)
  have hy: "hexDigitValue ?y = Some (nat n mod 16)" by (rule hexDigitValue_hexChar) simp
  from len have l130: "130 < length signature" by auto
  then have t: "length (take 130 signature) = 130" by simp
  have l: "length (normalizeSignatureV signature chainId) = 132"
    by (simp add: out t del: length_take)
  have "(length signature = 132) = (length signature - 130 = 2)" using l130 by arith
  then have e: "length (normalizeSignatureV signature chainId) = length signature
      \<longleftrightarrow> length ?z = 2" by (simp add: l)
  from p n c out x y hx hy l e show ?thesis by blast
qed

theorem normalizeSignatureV_short_hex_witness:
  "drop 130 (''0x'' @ replicate 128 (CHR ''0'') @ ''96'') = ''96''
   \<and> isHexDigit (CHR ''9'') \<and> isHexDigit (CHR ''6'')
   \<and> toDouble 43113 = Fin 43113 \<and> \<bar>43113 :: int\<bar> < 2 ^ 1023
   \<and> length (normalizeSignatureV (''0x'' @ replicate 128 (CHR ''0'') @ ''96'') 43113) = 132
   \<and> length (''0x'' @ replicate 128 (CHR ''0'') @ ''96'') = 132"
proof -
  let ?s = "''0x'' @ replicate 128 (CHR ''0'') @ ''96''"
  have d: "drop 130 ?s = ''96''" by simp
  have h: "isHexDigit (CHR ''9'')" "isHexDigit (CHR ''6'')"
    by (simp_all add: isHexDigit_def hexDigitValue_def)
  have len: "length (drop 130 ?s) = 1 \<or> length (drop 130 ?s) = 2" by simp
  have hex: "\<forall>c \<in> set (drop 130 ?s). isHexDigit c" using h by simp
  have c: "toDouble 43113 = Fin 43113" by (simp add: toDouble_small)
  have b: "\<bar>43113 :: int\<bar> < 2 ^ 1023" by simp
  from normalizeSignatureV_short_hex [OF len hex c b] d h c b show ?thesis by auto
qed

text \<open>
  C6. The claim: for every chain id \<open>C\<close> and parity \<open>y\<close>, a signature whose v is
  \<open>C * 2 + 35 + y\<close> is normalized with chain id \<open>C\<close> to \<open>27 + y\<close>. The numbers of the code are
  doubles: for \<open>C = 2^52\<close> and \<open>y = 1\<close> the difference \<open>v - 35\<close> is \<open>2^53 + 1\<close>, which rounds to
  \<open>2^53\<close>, so the parity is lost and the normalized v is 27.
\<close>

theorem normalizeSignatureV_eip155_counterexample:
  "parseInt16 (drop 130 (''0x'' @ replicate 128 (CHR ''0'') @ ''20000000000024''))
     = Fin (4503599627370496 * 2 + 35 + 1)
   \<and> normalizedV (Fin (4503599627370496 * 2 + 35 + 1)) 4503599627370496 \<noteq> Fin (27 + 1)
   \<and> normalizeSignatureV (''0x'' @ replicate 128 (CHR ''0'') @ ''20000000000024'')
        4503599627370496
       = ''0x'' @ replicate 128 (CHR ''0'') @ ''1b''"
proof -
  have l: "length (''0x'' @ replicate 128 (CHR ''0'')) = 130" by simp
  have t1: "toDouble 9007199254741028 = Fin 9007199254741028"
    using toDouble_scaled(1) [of 4503599627370514 1] by simp
  have p: "parseInt16 ''20000000000024'' = Fin 9007199254741028"
    by (simp add: parse_defs t1)
  have "bitLength 9007199254740993 = Suc 53" by (rule bitLength_eq) simp_all
  then have "roundMagnitude 9007199254740993 = 9007199254740992"
    by (simp add: roundMagnitude_def)
  then have t2: "toDouble 9007199254740993 = Fin 9007199254740992"
    by (simp add: toDouble_def)
  have t3: "toDouble 9007199254740992 = Fin 9007199254740992"
    by (rule toDouble_exact) simp
  have n: "normalizedV (Fin 9007199254741028) 4503599627370496 = Fin 27"
    by (simp add: normalizedV_def subN_def t2 t3 toDouble_small)
  have "normalizeSignatureV ((''0x'' @ replicate 128 (CHR ''0'')) @ ''20000000000024'')
        4503599627370496
      = (''0x'' @ replicate 128 (CHR ''0'')) @ ''1b''"
    by (simp only: normalizeSignatureV_append [OF l] p n render_27)
  with n show ?thesis by (simp add: p)
qed

text \<open>
  C6, as the code has it: for a chain id \<open>C\<close> (a natural number) and a parity \<open>y\<close> of 0 or 1
  such that \<open>C * 2 + 35 + y\<close> is at most \<open>2^53\<close>, a signature whose v parses to that value,
  normalized with chain id \<open>C\<close>, gets the v \<open>27 + y\<close>.
\<close>

theorem normalizeSignatureV_eip155:
  assumes "0 \<le> C" and "y = 0 \<or> y = 1" and "C * 2 + 35 + y \<le> 2 ^ 53"
    and "parseInt16 (drop 130 signature) = Fin (C * 2 + 35 + y)"
  shows "normalizedV (parseInt16 (drop 130 signature)) C = Fin (27 + y)
       \<and> normalizeSignatureV signature C
           = take 130 signature @ (if y = 0 then ''1b'' else ''1c'')"
proof -
  define v where "v = C * 2 + 35 + y"
  have ge: "35 \<le> v" using assms(1,2) by (auto simp: v_def)
  have c: "toDouble C = Fin C" using assms(1,2,3) by (intro toDouble_small) auto
  have "toDouble (C * 2) = Fin (C * 2)" using assms(1,2,3) by (intro toDouble_small) auto
  then have m: "mulN (Fin C) (Fin 2) = Fin (C * 2)" by simp
  have "toDouble (C * 2 + y) = Fin (C * 2 + y)"
    using assms(1,2,3) by (intro toDouble_small) auto
  then have a: "subN (Fin v) (Fin 35) = Fin (C * 2 + y)" by (simp add: subN_def v_def)
  have s: "subN (Fin (C * 2 + y)) (Fin (C * 2)) = Fin y"
    using assms(2) by (auto simp: subN_def toDouble_small)
  have r: "remN (Fin y) (Fin 2) = Fin y" using assms(2) by auto
  have t: "addN (Fin y) (Fin 27) = Fin (27 + y)"
    using assms(2) by (auto simp: toDouble_small)
  have "normalizedV (Fin v) C = Fin (27 + y)"
    using ge by (simp add: normalizedV_def c m a s r t del: remN.simps addN.simps mulN.simps)
  then have n: "normalizedV (Fin (C * 2 + 35 + y)) C = Fin (27 + y)" by (simp only: v_def)
  then show ?thesis
    using assms(2) by (auto simp: normalizeSignatureV_def assms(4) render_27 render_28)
qed

theorem normalizeSignatureV_eip155_witness:
  "parseInt16 (drop 130 (''0x'' @ replicate 128 (CHR ''0'') @ ''150f6''))
     = Fin (43113 * 2 + 35 + 1)
   \<and> normalizedV (Fin 86262) 43113 = Fin 28
   \<and> normalizeSignatureV (''0x'' @ replicate 128 (CHR ''0'') @ ''150f6'') 43113
       = ''0x'' @ replicate 128 (CHR ''0'') @ ''1c''"
proof -
  let ?s = "''0x'' @ replicate 128 (CHR ''0'') @ ''150f6''"
  have c: "(0::int) \<le> 43113" by simp
  have y: "(1::int) = 0 \<or> (1::int) = 1" by simp
  have b: "(43113::int) * 2 + 35 + 1 \<le> 2 ^ 53" by simp
  have h: "parseInt16 (drop 130 ?s) = Fin (43113 * 2 + 35 + 1)" by (simp add: parse_samples)
  from normalizeSignatureV_eip155 [OF c y b h] h show ?thesis by simp
qed

section \<open>Facts about the wrapper\<close>

lemma bindE_simps [simp]: "bindE (Inl e) f = Inl e" "bindE (Inr x) f = f x"
  by (simp_all add: bindE_def)

lemma truthy_simps [simp]:
  "truthy None = False" "truthy (Some s) = (s \<noteq> [])"
  by (simp_all add: truthy_def)

lemma withHeaders_same [simp]: "withHeaders init (initHeaders init) = init"
  by (cases init) (simp_all add: withHeaders_def initHeaders_def)

lemma findPaymentHeader_find:
  "findPaymentHeader h =
     (case List.find truthy (map (lookupHeader h) paymentNames) of
        Some a \<Rightarrow> a
      | None \<Rightarrow> lookupHeader h ''PAYMENT-SIGNATURE'')"
  by (cases h) (simp_all add: findPaymentHeader_def lookupHeader_def paymentNames_def orElse_def)

lemma findPaymentHeader_falsy:
  assumes "\<forall>n \<in> set paymentNames. \<not> truthy (lookupHeader h n)"
  shows "\<not> truthy (findPaymentHeader h)"
proof -
  from assms have "List.find truthy (map (lookupHeader h) paymentNames) = None"
    by (simp add: find_None_iff)
  moreover from assms have "\<not> truthy (lookupHeader h ''PAYMENT-SIGNATURE'')"
    by (simp add: paymentNames_def)
  ultimately show ?thesis by (simp add: findPaymentHeader_find)
qed

lemma createNormalizedFetch_log_throws:
  "stringifyOptions rt init = Inl e \<Longrightarrow>
   createNormalizedFetch rt chainId fetch input init = Inl e"
  by (simp add: createNormalizedFetch_def)

lemma createNormalizedFetch_no_header:
  "\<not> truthy (findPaymentHeader (initHeaders init)) \<Longrightarrow>
   createNormalizedFetch rt chainId fetch input init =
     (case stringifyOptions rt init of Inl e \<Rightarrow> Inl e | Inr u \<Rightarrow> Inr (fetch input init))"
  by (cases "findPaymentHeader (initHeaders init)")
    (simp_all add: createNormalizedFetch_def Let_def split: sum.splits)

lemma createNormalizedFetch_catch:
  assumes "findPaymentHeader (initHeaders init) = Some p" "p \<noteq> []"
    and "tryNormalize rt chainId (initHeaders init) p = Inl e"
  shows "createNormalizedFetch rt chainId fetch input init =
     (case stringifyOptions rt init of Inl e \<Rightarrow> Inl e | Inr u \<Rightarrow> Inr (fetch input init))"
  using assms by (simp add: createNormalizedFetch_def split: sum.splits)

lemma createNormalizedFetch_found:
  assumes "findPaymentHeader (initHeaders init) = Some p" "p \<noteq> []"
  shows "createNormalizedFetch rt chainId fetch input init =
     (case stringifyOptions rt init of
        Inl e \<Rightarrow> Inl e
      | Inr u \<Rightarrow>
          Inr (case normalizePayment rt chainId p of
                 Inr (Some v) \<Rightarrow>
                   (case updateHeaders (initHeaders init) v of
                      Inr h \<Rightarrow> fetch input (withHeaders init h)
                    | Inl e \<Rightarrow> fetch input init)
               | _ \<Rightarrow> fetch input init))"
  using assms
  by (simp add: createNormalizedFetch_def tryNormalize_def split: sum.splits option.splits)

lemma find_skip:
  "\<not> P (f n) \<Longrightarrow> List.find P (map f (removeAll n xs)) = List.find P (map f xs)"
  by (induction xs) auto

lemma findPaymentHeader_first_truthy:
  "List.find truthy (map (lookupHeader h) paymentNames) =
     (if truthy (findPaymentHeader h) then Some (findPaymentHeader h) else None)"
proof (cases "List.find truthy (map (lookupHeader h) paymentNames)")
  case None
  then have "\<not> (\<exists>x. x \<in> set (map (lookupHeader h) paymentNames) \<and> truthy x)"
    by (rule find_None_iff [THEN iffD1])
  then have "\<not> truthy (lookupHeader h ''PAYMENT-SIGNATURE'')"
    by (auto simp: paymentNames_def)
  with None show ?thesis by (simp add: findPaymentHeader_find)
next
  case (Some a)
  then have "truthy a" by (auto simp: find_Some_iff)
  with Some show ?thesis by (simp add: findPaymentHeader_find)
qed

text \<open>
  What holds of the three scenarios of C8, C9 and C10 when line 54 returns: an empty value is
  skipped in both representations, the search going on through the other names in their
  order; a decode failure, headers of another shape, or no non-empty payment header, each
  ends in the call of \<open>fetch\<close> on the options as they were.
\<close>

lemma findPaymentHeader_skips_empty:
  assumes "lookupHeader h n = Some []"
  shows "List.find truthy (map (lookupHeader h) (removeAll n paymentNames)) =
     (if truthy (findPaymentHeader h) then Some (findPaymentHeader h) else None)"
proof -
  from assms have "\<not> truthy (lookupHeader h n)" by simp
  then have "List.find truthy (map (lookupHeader h) (removeAll n paymentNames))
      = List.find truthy (map (lookupHeader h) paymentNames)"
    by (rule find_skip)
  then show ?thesis by (simp only: findPaymentHeader_first_truthy)
qed

lemma createNormalizedFetch_decode_failure:
  assumes "stringifyOptions rt init = Inr u"
    and "findPaymentHeader (initHeaders init) = Some p" and "p \<noteq> []"
    and "atob rt p = Inl e \<or> (\<exists>bin. atob rt p = Inr bin \<and> JSON_parse rt bin = Inl e)"
  shows "tryNormalize rt chainId (initHeaders init) p = Inl e
       \<and> createNormalizedFetch rt chainId fetch input init = Inr (fetch input init)"
proof -
  from assms(4) have "normalizePayment rt chainId p = Inl e"
    by (auto simp: normalizePayment_def)
  then have t: "tryNormalize rt chainId (initHeaders init) p = Inl e"
    by (simp add: tryNormalize_def)
  with createNormalizedFetch_catch [OF assms(2,3) t] assms(1) show ?thesis by simp
qed

lemma createNormalizedFetch_other_headers:
  assumes "stringifyOptions rt init = Inr u"
    and "\<forall>hl. initHeaders init \<noteq> HeadersObject hl"
    and "\<forall>kv. initHeaders init \<noteq> PlainObject kv"
  shows "findPaymentHeader (initHeaders init) = None
       \<and> createNormalizedFetch rt chainId fetch input init = Inr (fetch input init)"
proof -
  from assms(2,3) have "findPaymentHeader (initHeaders init) = None"
    by (cases "initHeaders init") (simp_all add: findPaymentHeader_def)
  then show ?thesis by (simp add: createNormalizedFetch_def assms(1))
qed

lemma createNormalizedFetch_no_value:
  assumes "stringifyOptions rt init = Inr u"
    and "\<forall>m \<in> set paymentNames. \<not> truthy (lookupHeader (initHeaders init) m)"
  shows "createNormalizedFetch rt chainId fetch input init = Inr (fetch input init)"
proof -
  from assms(2) have "\<not> truthy (findPaymentHeader (initHeaders init))"
    by (rule findPaymentHeader_falsy)
  then show ?thesis by (simp add: createNormalizedFetch_no_header assms(1))
qed

lemma updateHeaders_plain:
  "updateHeaders (PlainObject kv) v = Inr (PlainObject kv') \<Longrightarrow>
   map_of kv' ''X-PAYMENT'' = Some v \<and> map_of kv' ''x-payment'' = None
   \<and> (\<forall>k. k \<noteq> ''X-PAYMENT'' \<and> k \<noteq> ''x-payment'' \<longrightarrow> map_of kv' k = map_of kv k)"
  by (auto simp: updateHeaders_def update_conv' delete_conv')

subsection \<open>The reference host on a sample envelope\<close>

lemmas b64_defs = host_atob_def host_btoa_def stripPadding_def isAsciiWhitespace_def
  b64value_def b64char_def

lemmas json_defs = host_JSON_parse_def startsWith_def isJsonSpace_def quoteString_def
  escapeChar_def unescape_def jsonNumber_def isDigit_def decValue_def

lemma fuel_numeral:
  "jsonValue (numeral n) s = jsonValue (Suc (pred_numeral n)) s"
  "jsonElements (numeral n) s = jsonElements (Suc (pred_numeral n)) s"
  "jsonMembers (numeral n) s = jsonMembers (Suc (pred_numeral n)) s"
  by (simp_all only: numeral_eq_Suc)

lemma host_fields [simp]:
  "atob host = host_atob" "btoa host = host_btoa" "JSON_parse host = host_JSON_parse"
  "JSON_stringify host = jsonText" "ToString host = valueToString"
  "stringifyOptions host = host_stringifyOptions"
  by (simp_all add: host_def)

lemma sample_atob: "host_atob sampleHeader = Inr (envelopeText sampleSignature)"
  by (simp add: sampleHeader_def sampleSignature_def envelopeText_def quoteString_def
      escapeChar_def b64_defs char_of_def bit_Suc_0_iff)

lemma sample_parse: "host_JSON_parse (envelopeText sampleSignature) = Inr (envelope sampleSignature)"
  by (simp add: sampleSignature_def envelopeText_def envelope_def json_defs fuel_numeral)

lemma sample_signature: "normalizeSignatureV sampleSignature 43113 = normalizedSignature"
proof -
  have "normalizedV (Fin 86262) 43113 = Fin 28"
    by (simp add: normalizedV_def subN_def toDouble_small)
  then show ?thesis
    by (simp add: sampleSignature_def normalizedSignature_def normalizeSignatureV_def
        parse_samples render_28)
qed

lemma sample_text: "jsonText (envelope normalizedSignature) = envelopeText normalizedSignature"
  by (simp add: envelope_def envelopeText_def)

lemma sample_btoa: "host_btoa (envelopeText normalizedSignature) = Inr normalizedHeader"
  by (simp add: normalizedHeader_def normalizedSignature_def envelopeText_def quoteString_def
      escapeChar_def b64_defs)

lemma normalizePayment_envelope:
  assumes "atob rt h = Inr t" and "JSON_parse rt t = Inr (envelope sig)" and "sig \<noteq> []"
    and "btoa rt (JSON_stringify rt (envelope (normalizeSignatureV sig chainId))) = Inr h'"
  shows "normalizePayment rt chainId h = Inr (Some h')"
  using assms
  by (simp add: normalizePayment_def envelope_def payloadSignature_def getProperty_def
      callNormalizeSignatureV_def setPayloadSignature_def)

lemma sample_normalizePayment:
  "normalizePayment host 43113 sampleHeader = Inr (Some normalizedHeader)"
proof (rule normalizePayment_envelope)
  show "atob host sampleHeader = Inr (envelopeText sampleSignature)"
    by (simp add: sample_atob)
  show "JSON_parse host (envelopeText sampleSignature) = Inr (envelope sampleSignature)"
    by (simp add: sample_parse)
  show "sampleSignature \<noteq> []" by (simp add: sampleSignature_def)
  show "btoa host (JSON_stringify host (envelope (normalizeSignatureV sampleSignature 43113)))
      = Inr normalizedHeader"
    by (simp only: host_fields sample_signature sample_text sample_btoa)
qed


lemma normalizeValue_id:
  assumes "v \<noteq> []" "\<not> isHttpWhitespace (hd v)" "\<not> isHttpWhitespace (last v)"
  shows "normalizeValue v = v"
proof -
  from assms(1,2) have a: "dropWhile isHttpWhitespace v = v" by (cases v) simp_all
  from assms(1,3) have "dropWhile isHttpWhitespace (rev v) = rev v"
    by (cases "rev v") (simp_all add: last_rev [symmetric] hd_rev)
  with a show ?thesis by (simp add: normalizeValue_def)
qed

lemma sample_headersSet:
  "headersSet [(''payment-signature'', sampleHeader)] ''X-PAYMENT'' normalizedHeader
   = Inr [(''payment-signature'', sampleHeader), (''X-PAYMENT'', normalizedHeader)]"
proof -
  have n: "normalizeValue normalizedHeader = normalizedHeader"
    by (rule normalizeValue_id) (simp_all add: normalizedHeader_def isHttpWhitespace_def)
  have v: "validValue normalizedHeader"
    by (simp add: normalizedHeader_def validValue_def)
  have s: "\<not> sameName ''payment-signature'' ''X-PAYMENT''"
    by (simp add: sameName_def lowerChar_def)
  show ?thesis by (simp add: headersSet_def n v s)
qed

lemma sample_headersGet:
  "findPaymentHeader (HeadersObject [(''payment-signature'', sampleHeader)]) = Some sampleHeader"
proof -
  have s: "\<not> sameName ''payment-signature'' ''x-payment''"
     "\<not> sameName ''payment-signature'' ''X-PAYMENT''"
     "sameName ''payment-signature'' ''payment-signature''"
    by (simp_all add: sameName_def lowerChar_def)
  have ne: "sampleHeader \<noteq> []" by (simp add: sampleHeader_def)
  show ?thesis by (simp add: findPaymentHeader_def headersGet_def s orElse_def ne)
qed

section \<open>The claims about createNormalizedFetch\<close>

text \<open>
  C2. The claim: whichever of the four names carried the payment header, after the rewrite
  the canonical \<open>X-PAYMENT\<close> is the only payment header left. Lines 96 and 97 delete
  \<open>x-payment\<close> and \<open>X-PAYMENT\<close> only, and \<open>Headers.set\<close> replaces only headers of that name:
  a header found under \<open>payment-signature\<close> stays, with the signature that was not
  normalized, next to the new \<open>X-PAYMENT\<close>, in a plain mapping and in a \<open>Headers\<close>
  instance alike. Here the wrapped \<open>fetch\<close> returns the options it is given.
\<close>

theorem createNormalizedFetch_stale_payment_signature:
  "createNormalizedFetch host 43113 (\<lambda>input init. init) ()
     (Some \<lparr> headers = PlainObject [(''payment-signature'',
        ''eyJwYXlsb2FkIjp7InNpZ25hdHVyZSI6IjB4MDAwMDAwMDAwMDAwMDAwMDAwMDAwMDAwMDAwMDAwMDAwMDAwMDAwMDAwMDAwMDAwMDAwMDAwMDAwMDAwMDAwMDAwMDAwMDAwMDAwMDAwMDAwMDAwMDAwMDAwMDAwMDAwMDAwMDAwMDAwMDAwMDAwMDAwMDAwMDAwMDAwMDAwMDAxNTBmNiJ9fQ=='')],
        others = [] \<rparr>)
   = Inr (Some \<lparr> headers = PlainObject
       [(''payment-signature'',
         ''eyJwYXlsb2FkIjp7InNpZ25hdHVyZSI6IjB4MDAwMDAwMDAwMDAwMDAwMDAwMDAwMDAwMDAwMDAwMDAwMDAwMDAwMDAwMDAwMDAwMDAwMDAwMDAwMDAwMDAwMDAwMDAwMDAwMDAwMDAwMDAwMDAwMDAwMDAwMDAwMDAwMDAwMDAwMDAwMDAwMDAwMDAwMDAwMDAwMDAwMDAwMDAxNTBmNiJ9fQ==''),
        (''X-PAYMENT'',
         ''eyJwYXlsb2FkIjp7InNpZ25hdHVyZSI6IjB4MDAwMDAwMDAwMDAwMDAwMDAwMDAwMDAwMDAwMDAwMDAwMDAwMDAwMDAwMDAwMDAwMDAwMDAwMDAwMDAwMDAwMDAwMDAwMDAwMDAwMDAwMDAwMDAwMDAwMDAwMDAwMDAwMDAwMDAwMDAwMDAwMDAwMDAwMDAwMDAwMDAwMDAwMDAxYyJ9fQ=='')],
       others = [] \<rparr>)
   \<and> createNormalizedFetch host 43113 (\<lambda>input init. init) ()
     (Some \<lparr> headers = HeadersObject [(''payment-signature'',
        ''eyJwYXlsb2FkIjp7InNpZ25hdHVyZSI6IjB4MDAwMDAwMDAwMDAwMDAwMDAwMDAwMDAwMDAwMDAwMDAwMDAwMDAwMDAwMDAwMDAwMDAwMDAwMDAwMDAwMDAwMDAwMDAwMDAwMDAwMDAwMDAwMDAwMDAwMDAwMDAwMDAwMDAwMDAwMDAwMDAwMDAwMDAwMDAwMDAwMDAwMDAwMDAxNTBmNiJ9fQ=='')],
        others = [] \<rparr>)
   = Inr (Some \<lparr> headers = HeadersObject
       [(''payment-signature'',
         ''eyJwYXlsb2FkIjp7InNpZ25hdHVyZSI6IjB4MDAwMDAwMDAwMDAwMDAwMDAwMDAwMDAwMDAwMDAwMDAwMDAwMDAwMDAwMDAwMDAwMDAwMDAwMDAwMDAwMDAwMDAwMDAwMDAwMDAwMDAwMDAwMDAwMDAwMDAwMDAwMDAwMDAwMDAwMDAwMDAwMDAwMDAwMDAwMDAwMDAwMDAwMDAxNTBmNiJ9fQ==''),
        (''X-PAYMENT'',
         ''eyJwYXlsb2FkIjp7InNpZ25hdHVyZSI6IjB4MDAwMDAwMDAwMDAwMDAwMDAwMDAwMDAwMDAwMDAwMDAwMDAwMDAwMDAwMDAwMDAwMDAwMDAwMDAwMDAwMDAwMDAwMDAwMDAwMDAwMDAwMDAwMDAwMDAwMDAwMDAwMDAwMDAwMDAwMDAwMDAwMDAwMDAwMDAwMDAwMDAwMDAwMDAxYyJ9fQ=='')],
       others = [] \<rparr>)"
proof -
  let ?p = "Some \<lparr> headers = PlainObject [(''payment-signature'', sampleHeader)],
    others = [] \<rparr>"
  let ?h = "Some \<lparr> headers = HeadersObject [(''payment-signature'', sampleHeader)],
    others = [] \<rparr>"
  have ne: "sampleHeader \<noteq> []" by (simp add: sampleHeader_def)
  then have f: "findPaymentHeader (initHeaders ?p) = Some sampleHeader"
    by (simp add: initHeaders_def findPaymentHeader_def orElse_def)
  have g: "findPaymentHeader (initHeaders ?h) = Some sampleHeader"
    by (simp add: initHeaders_def sample_headersGet)
  have p: "createNormalizedFetch host 43113 (\<lambda>input init. init) () ?p
      = Inr (Some \<lparr> headers = PlainObject
          [(''payment-signature'', sampleHeader), (''X-PAYMENT'', normalizedHeader)],
          others = [] \<rparr>)"
    by (simp add: createNormalizedFetch_found [OF f ne] sample_normalizePayment
        host_stringifyOptions_def updateHeaders_def initHeaders_def withHeaders_def)
  have h: "createNormalizedFetch host 43113 (\<lambda>input init. init) () ?h
      = Inr (Some \<lparr> headers = HeadersObject
          [(''payment-signature'', sampleHeader), (''X-PAYMENT'', normalizedHeader)],
          others = [] \<rparr>)"
    by (simp add: createNormalizedFetch_found [OF g ne] sample_normalizePayment
        host_stringifyOptions_def updateHeaders_def initHeaders_def withHeaders_def
        sample_headersSet)
  from p h show ?thesis by (simp only: sampleHeader_def normalizedHeader_def)
qed

text \<open>
  C7. The search tries \<open>x-payment\<close>, \<open>X-PAYMENT\<close>, \<open>payment-signature\<close>,
  \<open>PAYMENT-SIGNATURE\<close> in this order and takes the first whose value is truthy (a non-empty
  string). When a plain mapping carries \<open>x-payment\<close> and \<open>X-PAYMENT\<close> with non-empty values,
  the value of \<open>x-payment\<close> is the one that is decoded, and the rewritten headers are made
  from it alone.
\<close>

theorem findPaymentHeader_priority:
  assumes "headers r = PlainObject kv"
    and "map_of kv ''x-payment'' = Some a" and "a \<noteq> []"
    and "map_of kv ''X-PAYMENT'' = Some b" and "b \<noteq> []"
  shows "findPaymentHeader h =
           (case List.find truthy (map (lookupHeader h) paymentNames) of
              Some x \<Rightarrow> x
            | None \<Rightarrow> lookupHeader h ''PAYMENT-SIGNATURE'')
       \<and> findPaymentHeader (PlainObject kv) = Some a
       \<and> createNormalizedFetch rt chainId fetch input (Some r) =
           (case stringifyOptions rt (Some r) of
              Inl e \<Rightarrow> Inl e
            | Inr u \<Rightarrow>
                Inr (case normalizePayment rt chainId a of
                       Inr (Some v) \<Rightarrow>
                         fetch input (Some (r\<lparr>headers := PlainObject
                           (AList.update ''X-PAYMENT'' v
                              (AList.delete ''X-PAYMENT'' (AList.delete ''x-payment'' kv)))\<rparr>))
                     | _ \<Rightarrow> fetch input (Some r)))"
proof -
  have f: "findPaymentHeader (initHeaders (Some r)) = Some a"
    using assms(1,2,3) by (simp add: initHeaders_def findPaymentHeader_def orElse_def)
  then have g: "findPaymentHeader (PlainObject kv) = Some a"
    using assms(1) by (simp add: initHeaders_def)
  have "createNormalizedFetch rt chainId fetch input (Some r) =
           (case stringifyOptions rt (Some r) of
              Inl e \<Rightarrow> Inl e
            | Inr u \<Rightarrow>
                Inr (case normalizePayment rt chainId a of
                       Inr (Some v) \<Rightarrow>
                         fetch input (Some (r\<lparr>headers := PlainObject
                           (AList.update ''X-PAYMENT'' v
                              (AList.delete ''X-PAYMENT'' (AList.delete ''x-payment'' kv)))\<rparr>))
                     | _ \<Rightarrow> fetch input (Some r)))"
    using assms(1)
    by (simp add: createNormalizedFetch_found [OF f assms(3)] updateHeaders_def initHeaders_def
        withHeaders_def split: sum.splits option.splits)
  with g show ?thesis by (simp add: findPaymentHeader_find)
qed

theorem findPaymentHeader_priority_witness:
  "createNormalizedFetch host 43113 (\<lambda>input init. init) ()
     (Some \<lparr> headers = PlainObject
        [(''x-payment'',
          ''eyJwYXlsb2FkIjp7InNpZ25hdHVyZSI6IjB4MDAwMDAwMDAwMDAwMDAwMDAwMDAwMDAwMDAwMDAwMDAwMDAwMDAwMDAwMDAwMDAwMDAwMDAwMDAwMDAwMDAwMDAwMDAwMDAwMDAwMDAwMDAwMDAwMDAwMDAwMDAwMDAwMDAwMDAwMDAwMDAwMDAwMDAwMDAwMDAwMDAwMDAwMDAxNTBmNiJ9fQ==''),
         (''X-PAYMENT'',
          ''eyJwYXlsb2FkIjp7InNpZ25hdHVyZSI6IjB4MDAwMDAwMDAwMDAwMDAwMDAwMDAwMDAwMDAwMDAwMDAwMDAwMDAwMDAwMDAwMDAwMDAwMDAwMDAwMDAwMDAwMDAwMDAwMDAwMDAwMDAwMDAwMDAwMDAwMDAwMDAwMDAwMDAwMDAwMDAwMDAwMDAwMDAwMDAwMDAwMDAwMDAwMDAxNTBmNSJ9fQ=='')],
        others = [] \<rparr>)
   = Inr (Some \<lparr> headers = PlainObject
       [(''X-PAYMENT'',
         ''eyJwYXlsb2FkIjp7InNpZ25hdHVyZSI6IjB4MDAwMDAwMDAwMDAwMDAwMDAwMDAwMDAwMDAwMDAwMDAwMDAwMDAwMDAwMDAwMDAwMDAwMDAwMDAwMDAwMDAwMDAwMDAwMDAwMDAwMDAwMDAwMDAwMDAwMDAwMDAwMDAwMDAwMDAwMDAwMDAwMDAwMDAwMDAwMDAwMDAwMDAwMDAxYyJ9fQ=='')],
       others = [] \<rparr>)"
proof -
  let ?kv = "[(''x-payment'', sampleHeader), (''X-PAYMENT'', otherHeader)]"
  let ?r = "\<lparr> headers = PlainObject ?kv, others = [] \<rparr>"
  have h: "headers ?r = PlainObject ?kv" by simp
  have a: "map_of ?kv ''x-payment'' = Some sampleHeader" by simp
  have na: "sampleHeader \<noteq> []" by (simp add: sampleHeader_def)
  have b: "map_of ?kv ''X-PAYMENT'' = Some otherHeader" by simp
  have nb: "otherHeader \<noteq> []" by (simp add: otherHeader_def)
  from findPaymentHeader_priority [OF h a na b nb, of _ host 43113 "\<lambda>input init. init" "()"]
  have "createNormalizedFetch host 43113 (\<lambda>input init. init) () (Some ?r)
      = Inr (Some \<lparr> headers = PlainObject [(''X-PAYMENT'', normalizedHeader)],
          others = [] \<rparr>)"
    by (simp add: sample_normalizePayment host_stringifyOptions_def)
  then show ?thesis by (simp only: sampleHeader_def otherHeader_def normalizedHeader_def)
qed

text \<open>
  C8. The claim: when the value of the payment header fails base64 decoding or JSON parsing,
  no error leaves the wrapper and \<open>fetch\<close> is still called on the original options. The
  decode error is caught on line 101, but line 54 serializes the options for the console
  before the \<open>try\<close> block, with a replacer that guards against \<open>bigint\<close> values only: when the
  options refer back to themselves, \<open>JSON.stringify\<close> throws \<open>TypeError\<close>, the wrapper
  rejects, and \<open>fetch\<close> is not called. Here the header \<open>not base64!\<close> fails decoding and the
  options carry a property \<open>self\<close> that holds the options object.
\<close>

theorem createNormalizedFetch_decode_failure_log_throws:
  "findPaymentHeader (PlainObject [(''x-payment'', ''not base64!'')]) = Some ''not base64!''
   \<and> atob host ''not base64!'' = Inl InvalidCharacterError
   \<and> createNormalizedFetch host 43113 (\<lambda>input init. init) ()
       (Some \<lparr> headers = PlainObject [(''x-payment'', ''not base64!'')],
                others = [(''self'', TheOptions)] \<rparr>)
     = Inl TypeError"
proof -
  have f: "findPaymentHeader (PlainObject [(''x-payment'', ''not base64!'')])
      = Some ''not base64!''"
    by (simp add: findPaymentHeader_def orElse_def)
  have a: "atob host ''not base64!'' = Inl InvalidCharacterError"
    by (simp add: b64_defs)
  have "stringifyOptions host
      (Some \<lparr> headers = PlainObject [(''x-payment'', ''not base64!'')],
               others = [(''self'', TheOptions)] \<rparr>) = Inl TypeError"
    by (simp add: host_stringifyOptions_def)
  then have "createNormalizedFetch host 43113 (\<lambda>input init. init) ()
       (Some \<lparr> headers = PlainObject [(''x-payment'', ''not base64!'')],
                others = [(''self'', TheOptions)] \<rparr>)
     = Inl TypeError"
    by (rule createNormalizedFetch_log_throws)
  with f a show ?thesis by (simp only: simp_thms)
qed

text \<open>
  C9. The claim: when \<open>options.headers\<close> is neither a \<open>Headers\<close> instance nor a plain mapping,
  no exception is raised and the request is delegated with the options unchanged. Nothing
  is rewritten, but line 54 has already serialized the options outside any \<open>try\<close> block:
  with the headers omitted and a property \<open>self\<close> that holds the options object,
  \<open>JSON.stringify\<close> throws \<open>TypeError\<close>, the wrapper rejects, and \<open>fetch\<close> is not called.
\<close>

theorem createNormalizedFetch_other_headers_log_throws:
  "findPaymentHeader NoHeaders = None
   \<and> createNormalizedFetch host 43113 (\<lambda>input init. init) ()
       (Some \<lparr> headers = NoHeaders, others = [(''self'', TheOptions)] \<rparr>)
     = Inl TypeError"
proof -
  have f: "findPaymentHeader NoHeaders = None" by (simp add: findPaymentHeader_def)
  have "stringifyOptions host
      (Some \<lparr> headers = NoHeaders, others = [(''self'', TheOptions)] \<rparr>) = Inl TypeError"
    by (simp add: host_stringifyOptions_def)
  then have "createNormalizedFetch host 43113 (\<lambda>input init. init) ()
       (Some \<lparr> headers = NoHeaders, others = [(''self'', TheOptions)] \<rparr>)
     = Inl TypeError"
    by (rule createNormalizedFetch_log_throws)
  with f show ?thesis by (simp only: simp_thms)
qed

text \<open>
  C10. The claim: a payment header whose value is the empty string counts as absent, and
  when no variant has a non-empty value nothing is decoded or rewritten and the headers are
  delegated unchanged. The empty value is skipped, and nothing is decoded or rewritten, but
  line 54 has already serialized the options outside any \<open>try\<close> block: with an empty
  \<open>x-payment\<close> and a property \<open>self\<close> that holds the options object, \<open>JSON.stringify\<close>
  throws \<open>TypeError\<close>, the wrapper rejects, and nothing is delegated.
\<close>

theorem createNormalizedFetch_empty_value_log_throws:
  "\<not> truthy (findPaymentHeader (PlainObject [(''x-payment'', [])]))
   \<and> createNormalizedFetch host 43113 (\<lambda>input init. init) ()
       (Some \<lparr> headers = PlainObject [(''x-payment'', [])],
                others = [(''self'', TheOptions)] \<rparr>)
     = Inl TypeError"
proof -
  have f: "\<not> truthy (findPaymentHeader (PlainObject [(''x-payment'', [])]))"
    by (simp add: findPaymentHeader_def orElse_def)
  have "stringifyOptions host
      (Some \<lparr> headers = PlainObject [(''x-payment'', [])],
               others = [(''self'', TheOptions)] \<rparr>) = Inl TypeError"
    by (simp add: host_stringifyOptions_def)
  then have "createNormalizedFetch host 43113 (\<lambda>input init. init) ()
       (Some \<lparr> headers = PlainObject [(''x-payment'', [])],
                others = [(''self'', TheOptions)] \<rparr>)
     = Inl TypeError"
    by (rule createNormalizedFetch_log_throws)
  with f show ?thesis by (simp only: simp_thms)
qed

end
